theory Spec2Isabelle
  imports Main
begin

section \<open>JavaScript values\<close>

text \<open>
  The data handed to \<^verbatim>\<open>validate\<close> is a JSON-like tree. Numbers are modelled as
  integers (no fractions, no NaN, no infinities), strings as lists of 8-bit characters.
  An object is the list of its own enumerable properties in \<^verbatim>\<open>Object.keys\<close> order, with
  distinct names; a property lookup returns the binding of the name, and properties
  inherited from \<^verbatim>\<open>Object.prototype\<close> are not modelled. Values are trees: no two
  positions share one object, so an object or array is identical (\<^verbatim>\<open>===\<close>) to no other
  value met during a traversal, and a mutation of a child is seen through its parent
  only. The functions that the caller or the format library supplies (conditions,
  validators, converters) are pure, and what a converter returns is a new value.
\<close>

datatype jsval =
    VUndef
  | VNull
  | VBool bool
  | VNum int
  | VStr string
  | VArr "jsval list"
  | VObj "(string \<times> jsval) list"

text \<open>The exceptions a call can end with.  A \<^verbatim>\<open>TrackValidationError\<close> carries the
  key (the path of the offending value) and the reason; the message text of the source
  is the key followed by the phrase listed beside each reason.\<close>

datatype reason =
    NotDefinedButRequired            \<comment> \<open>\<^verbatim>\<open>key + ' not defined but required!'\<close>\<close>
  | FormatError string               \<comment> \<open>\<^verbatim>\<open>key + ' format error: ' + e\<close>\<close>
  | NotAValidValue string            \<comment> \<open>\<^verbatim>\<open>key + ' is not a valid ' + format + ' value'\<close>\<close>
  | NotInAllowedValues               \<comment> \<open>\<^verbatim>\<open>... isn't in list of allowedValues\<close>\<close>
  | OutOfRange                       \<comment> \<open>\<^verbatim>\<open>... is out of range\<close>\<close>
  | MinLengthNotReached              \<comment> \<open>\<^verbatim>\<open>Min length not reached\<close>\<close>
  | WrongLength                      \<comment> \<open>\<^verbatim>\<open>Value has wrong length\<close>\<close>
  | MaxLengthExceeded                \<comment> \<open>\<^verbatim>\<open>Max length exceeded\<close>\<close>
  | DifferentLength                  \<comment> \<open>\<^verbatim>\<open>has a different length (..) than the previous sibling\<close>\<close>
  | BreaksAscendingOrder             \<comment> \<open>\<^verbatim>\<open>key + ' breaks ascending order'\<close>\<close>
  | BreaksDescendingOrder            \<comment> \<open>\<^verbatim>\<open>key + ' breaks descending order'\<close>\<close>
  | RepeatsPreviousSibling           \<comment> \<open>\<^verbatim>\<open>key + ' repeats the value from its previous sibling'\<close>\<close>
  | ExpectedObjectOrArray            \<comment> \<open>\<^verbatim>\<open>key + ' is expected to be an object or array'\<close>\<close>
  | InvalidConditionName string      \<comment> \<open>\<^verbatim>\<open>'invalid condition name ' + name + ' at ' + key\<close>\<close>

datatype error =
    TrackValidationError string reason  \<comment> \<open>\<^verbatim>\<open>new Err.TrackValidationError(..)\<close>\<close>
  | PlainError string                   \<comment> \<open>\<^verbatim>\<open>new Error(..)\<close> with its message\<close>
  | TypeError                           \<comment> \<open>thrown by the engine: property read on undefined or null\<close>
  | SyntaxError                         \<comment> \<open>thrown by \<^verbatim>\<open>JSON.parse\<close>\<close>

subsection \<open>Operators of the language\<close>

fun truthy :: "jsval \<Rightarrow> bool" where
  "truthy VUndef = False"
| "truthy VNull = False"
| "truthy (VBool b) = b"
| "truthy (VNum n) = (n \<noteq> 0)"
| "truthy (VStr s) = (s \<noteq> [])"
| "truthy (VArr _) = True"
| "truthy (VObj _) = True"

text \<open>\<^verbatim>\<open>typeof v === 'object'\<close>: true of null, arrays and objects.\<close>

fun typeof_object :: "jsval \<Rightarrow> bool" where
  "typeof_object VNull = True"
| "typeof_object (VArr _) = True"
| "typeof_object (VObj _) = True"
| "typeof_object _ = False"

fun isArray :: "jsval \<Rightarrow> bool" where
  "isArray (VArr _) = True"
| "isArray _ = False"

text \<open>Strict equality \<^verbatim>\<open>===\<close>. Primitives compare by value; an object or array is
  identical only to itself, and the values compared here always sit at different
  positions of a tree.\<close>

fun js_strict_eq :: "jsval \<Rightarrow> jsval \<Rightarrow> bool" where
  "js_strict_eq VUndef VUndef = True"
| "js_strict_eq VNull VNull = True"
| "js_strict_eq (VBool a) (VBool b) = (a = b)"
| "js_strict_eq (VNum a) (VNum b) = (a = b)"
| "js_strict_eq (VStr a) (VStr b) = (a = b)"
| "js_strict_eq _ _ = False"

text \<open>Decimal rendering of a number, as \<^verbatim>\<open>ToString\<close> gives it for an integer.\<close>

fun show_nat :: "nat \<Rightarrow> string" where
  "show_nat n =
     (if n < 10 then [char_of (48 + n)]
      else show_nat (n div 10) @ [char_of (48 + n mod 10)])"

declare show_nat.simps [simp del]

definition show_int :: "int \<Rightarrow> string" where
  "show_int i = (if i < 0 then CHR ''-'' # show_nat (nat (- i)) else show_nat (nat i))"

fun join_comma :: "string list \<Rightarrow> string" where
  "join_comma [] = []"
| "join_comma [s] = s"
| "join_comma (s # t # ss) = s @ '','' @ join_comma (t # ss)"

text \<open>\<^verbatim>\<open>ToString\<close>. An array is its elements joined by commas, where null and
  undefined elements are empty; a plain object is \<^verbatim>\<open>[object Object]\<close>.\<close>

fun js_to_string :: "jsval \<Rightarrow> string" where
  "js_to_string VUndef = ''undefined''"
| "js_to_string VNull = ''null''"
| "js_to_string (VBool b) = (if b then ''true'' else ''false'')"
| "js_to_string (VNum n) = show_int n"
| "js_to_string (VStr s) = s"
| "js_to_string (VArr xs) =
     join_comma (map (\<lambda>x. if x = VUndef \<or> x = VNull then [] else js_to_string x) xs)"
| "js_to_string (VObj _) = ''[object Object]''"

definition is_digit :: "char \<Rightarrow> bool" where
  "is_digit c = (48 \<le> (of_char c :: nat) \<and> (of_char c :: nat) \<le> 57)"

definition is_space :: "char \<Rightarrow> bool" where
  "is_space c = ((of_char c :: nat) \<in> {9, 10, 11, 12, 13, 32})"

definition digits_value :: "string \<Rightarrow> nat" where
  "digits_value ds = foldl (\<lambda>acc c. 10 * acc + ((of_char c :: nat) - 48)) 0 ds"

definition trim :: "string \<Rightarrow> string" where
  "trim s = rev (dropWhile is_space (rev (dropWhile is_space s)))"

text \<open>\<^verbatim>\<open>ToNumber\<close> on a string, within the integers: surrounding white space is dropped,
  the empty string is 0, an optionally signed run of decimal digits is its value, and
  anything else is NaN (\<open>None\<close>). Numerals with a fraction, an exponent or a radix prefix
  denote numbers outside this model of numbers and read as NaN here.\<close>

definition string_to_number :: "string \<Rightarrow> int option" where
  "string_to_number s =
     (let t = trim s in
      if t = [] then Some 0
      else
        let neg = (hd t = CHR ''-'');
            ds = (if hd t = CHR ''-'' \<or> hd t = CHR ''+'' then tl t else t)
        in if ds \<noteq> [] \<and> list_all is_digit ds
           then Some (if neg then - int (digits_value ds) else int (digits_value ds))
           else None)"

text \<open>\<^verbatim>\<open>ToNumber\<close>; \<open>None\<close> is NaN.\<close>

fun js_to_number :: "jsval \<Rightarrow> int option" where
  "js_to_number VUndef = None"
| "js_to_number VNull = Some 0"
| "js_to_number (VBool b) = Some (if b then 1 else 0)"
| "js_to_number (VNum n) = Some n"
| "js_to_number (VStr s) = string_to_number s"
| "js_to_number (VArr xs) = string_to_number (js_to_string (VArr xs))"
| "js_to_number (VObj ps) = string_to_number (js_to_string (VObj ps))"

text \<open>Strings compare by code units, a proper prefix being smaller.\<close>

fun string_less :: "string \<Rightarrow> string \<Rightarrow> bool" where
  "string_less [] [] = False"
| "string_less [] (_ # _) = True"
| "string_less (_ # _) [] = False"
| "string_less (a # as) (b # bs) =
     (if (of_char a :: nat) < of_char b then True
      else if (of_char b :: nat) < of_char a then False
      else string_less as bs)"

fun is_string_like :: "jsval \<Rightarrow> bool" where
  "is_string_like (VStr _) = True"
| "is_string_like (VArr _) = True"
| "is_string_like (VObj _) = True"
| "is_string_like _ = False"

text \<open>The relational operator \<^verbatim>\<open>a < b\<close>: both operands become primitives (an array or
  object becomes its string); two strings compare as strings, anything else as numbers,
  and a comparison with NaN is false.  \<^verbatim>\<open>a > b\<close> is \<^verbatim>\<open>b < a\<close>.\<close>

definition js_lt :: "jsval \<Rightarrow> jsval \<Rightarrow> bool" where
  "js_lt a b =
     (if is_string_like a \<and> is_string_like b
      then string_less (js_to_string a) (js_to_string b)
      else (case (js_to_number a, js_to_number b) of
              (Some x, Some y) \<Rightarrow> x < y
            | _ \<Rightarrow> False))"

definition js_gt :: "jsval \<Rightarrow> jsval \<Rightarrow> bool" where
  "js_gt a b = js_lt b a"

text \<open>\<^verbatim>\<open>value.length\<close>: the count of a string or array, the own property of an object,
  undefined on a number or boolean, and a \<^verbatim>\<open>TypeError\<close> on null and undefined.\<close>

definition own_property :: "(string \<times> jsval) list \<Rightarrow> string \<Rightarrow> jsval" where
  "own_property ps k = (case map_of ps k of None \<Rightarrow> VUndef | Some v \<Rightarrow> v)"

fun js_length :: "jsval \<Rightarrow> error + jsval" where
  "js_length VUndef = Inl TypeError"
| "js_length VNull = Inl TypeError"
| "js_length (VBool _) = Inr VUndef"
| "js_length (VNum _) = Inr VUndef"
| "js_length (VStr s) = Inr (VNum (int (length s)))"
| "js_length (VArr xs) = Inr (VNum (int (length xs)))"
| "js_length (VObj ps) = Inr (own_property ps ''length'')"


text \<open>\<^verbatim>\<open>obj[name] = v\<close> on the own properties: an existing binding is replaced where it
  stands, a new one is added at the end.\<close>

fun set_property :: "(string \<times> jsval) list \<Rightarrow> string \<Rightarrow> jsval \<Rightarrow> (string \<times> jsval) list" where
  "set_property [] k v = [(k, v)]"
| "set_property ((k', v') # ps) k v =
     (if k' = k then (k, v) # ps else (k', v') # set_property ps k v)"

text \<open>The third argument of the iteration callback: an array index or a property name.\<close>

datatype propname = Index nat | Name string

fun js_get :: "jsval \<Rightarrow> propname \<Rightarrow> jsval" where
  "js_get (VArr xs) (Index i) = (if i < length xs then xs ! i else VUndef)"
| "js_get (VObj ps) (Name k) = own_property ps k"
| "js_get _ _ = VUndef"

fun js_set :: "jsval \<Rightarrow> propname \<Rightarrow> jsval \<Rightarrow> jsval" where
  "js_set (VArr xs) (Index i) v =
     (if i < length xs then VArr (xs[i := v])
      else VArr (xs @ replicate (i - length xs) VUndef @ [v]))"
| "js_set (VObj ps) (Name k) v = VObj (set_property ps k v)"
| "js_set pv _ _ = pv"

section \<open>Rules, options and the format registry\<close>

text \<open>
  A rule is an object of constraints; a missing constraint is \<open>None\<close> (or \<open>False\<close> for
  the flags). An entry of a rule map is one rule or an array of conditional alternatives.
  A rule map lists its entries in \<^verbatim>\<open>Object.keys\<close> order.
\<close>

datatype rule = Rule
    (required: bool)
    (format: "string option")
    (allowedValues: "jsval list option")
    (range_c: "(jsval \<times> jsval) option")
    (minLength: "nat option")
    (maxLength: "nat option")
    (length_c: "nat option")
    (childRules: "(string \<times> rule_entry) list option")
    (ascending: bool)
    (descending: bool)
    (noRepeat: bool)
    (fixedChildLength: bool)
    (condition: "string option")
and rule_entry = Node rule | Alternatives "rule list"

type_synonym rulemap = "(string \<times> rule_entry) list"

text \<open>The rule \<^verbatim>\<open>{}\<close>.\<close>

definition emptyRule :: rule where
  "emptyRule = Rule False None None None None None None None False False False False None"

definition wildcardRuleName :: string where
  "wildcardRuleName = ''*''"

text \<open>\<^verbatim>\<open>currentOptions\<close>: the defaults extended by the caller's options. The defaults
  hold no \<^verbatim>\<open>conditions\<close>, so that field is undefined (\<open>None\<close>) unless the caller gives
  one. A condition is a pure predicate of the parent value and the value.\<close>

record options =
  filter_opt :: bool
  debug :: bool
  convert :: bool
  conditions :: "(string \<Rightarrow> (jsval \<Rightarrow> jsval \<Rightarrow> bool) option) option"

definition defaultOptions :: options where
  "defaultOptions = \<lparr>filter_opt = False, debug = False, convert = False, conditions = None\<rparr>"

text \<open>What the functions of the format library throw: a converter throws a string (a
  descriptive reason), and any of them can make the engine throw a \<^verbatim>\<open>TypeError\<close> (by
  reading \<^verbatim>\<open>value.length\<close> of null, say).\<close>

datatype thrown = ThrownString string | ThrownTypeError

text \<open>The module \<^verbatim>\<open>validatorformats\<close>: two tables of functions indexed by format name.
  A validator returns a boolean, or throws a \<^verbatim>\<open>TypeError\<close> (\<open>None\<close>).\<close>

record formats =
  validators :: "string \<Rightarrow> (jsval \<Rightarrow> bool option) option"
  converters :: "string \<Rightarrow> (jsval \<Rightarrow> thrown + jsval) option"

section \<open>The atomic checks\<close>

definition arrayContains :: "jsval \<Rightarrow> jsval list \<Rightarrow> bool" where
  "arrayContains v allowed = list_ex (\<lambda>a. js_strict_eq a v) allowed"

definition isRequired :: "jsval \<Rightarrow> string \<Rightarrow> error + unit" where
  "isRequired v key =
     (if v = VUndef then Inl (TrackValidationError key NotDefinedButRequired) else Inr ())"

text \<open>\<^verbatim>\<open>isCorrectFormat\<close> returns the converted value. \<open>None\<close> stands for the value
  itself (no converter ran), \<open>Some c\<close> for a converter's output \<open>c\<close>.\<close>

definition isCorrectFormat ::
  "formats \<Rightarrow> options \<Rightarrow> string \<Rightarrow> jsval \<Rightarrow> string \<Rightarrow> error + jsval option" where
  "isCorrectFormat F opts fmt v key =
     (let validator = validators F fmt;
          converter = (if convert opts then converters F fmt else None)
      in case converter of
           Some conv \<Rightarrow>
             (case conv v of
                Inr c \<Rightarrow> Inr (Some c)
              | Inl (ThrownString e) \<Rightarrow> Inl (TrackValidationError key (FormatError e))
              | Inl ThrownTypeError \<Rightarrow> Inl TypeError)
         | None \<Rightarrow>
             (case validator of
                Some val \<Rightarrow>
                  (case val v of
                     None \<Rightarrow> Inl TypeError
                   | Some ok \<Rightarrow>
                       if \<not> ok then Inl (TrackValidationError key (NotAValidValue fmt))
                       else Inr None)
              | None \<Rightarrow> Inl (PlainError (fmt @ '' is not a valid format at location '' @ key))))"

definition isAllowedValue :: "jsval list \<Rightarrow> jsval \<Rightarrow> string \<Rightarrow> error + unit" where
  "isAllowedValue allowed v key =
     (if \<not> arrayContains v allowed then Inl (TrackValidationError key NotInAllowedValues)
      else Inr ())"

definition isInRange :: "jsval \<times> jsval \<Rightarrow> jsval \<Rightarrow> string \<Rightarrow> error + unit" where
  "isInRange r v key =
     (let from = fst r; to = snd r
      in if js_lt v from \<or> js_gt v to then Inl (TrackValidationError key OutOfRange)
         else Inr ())"

definition isMinLength :: "nat \<Rightarrow> jsval \<Rightarrow> string \<Rightarrow> error + unit" where
  "isMinLength n v key =
     (case js_length v of
        Inl e \<Rightarrow> Inl e
      | Inr l \<Rightarrow> if js_lt l (VNum (int n)) then Inl (TrackValidationError key MinLengthNotReached)
                 else Inr ())"

definition isLength :: "nat \<Rightarrow> jsval \<Rightarrow> string \<Rightarrow> error + unit" where
  "isLength n v key =
     (case js_length v of
        Inl e \<Rightarrow> Inl e
      | Inr l \<Rightarrow> if \<not> js_strict_eq l (VNum (int n)) then Inl (TrackValidationError key WrongLength)
                 else Inr ())"

definition isMaxLength :: "nat \<Rightarrow> jsval \<Rightarrow> string \<Rightarrow> error + unit" where
  "isMaxLength n v key =
     (case js_length v of
        Inl e \<Rightarrow> Inl e
      | Inr l \<Rightarrow> if js_gt l (VNum (int n)) then Inl (TrackValidationError key MaxLengthExceeded)
                 else Inr ())"

text \<open>\<^verbatim>\<open>applyFilterForObject\<close>: every own key of the object that is not an own key of
  the rules is deleted.\<close>

definition applyFilterForObject :: "(string \<times> jsval) list \<Rightarrow> rulemap \<Rightarrow> (string \<times> jsval) list" where
  "applyFilterForObject obj rules = filter (\<lambda>(key, v). map_of rules key \<noteq> None) obj"

section \<open>The parent stack\<close>

text \<open>One frame per rule map being iterated. Both properties are absent from a new
  frame: \<^verbatim>\<open>fixedChildLength\<close> is then undefined and \<^verbatim>\<open>prevChildValues\<close> is \<open>None\<close>.\<close>

record frame =
  frame_fixedChildLength :: jsval
  prevChildValues :: "(string \<times> jsval) list option"

definition emptyFrame :: frame where
  "emptyFrame = \<lparr>frame_fixedChildLength = VUndef, prevChildValues = None\<rparr>"

type_synonym ParentStack = "frame list"

definition push :: "ParentStack \<Rightarrow> ParentStack" where
  "push st = st @ [emptyFrame]"

definition pop :: "ParentStack \<Rightarrow> ParentStack" where
  "pop st = butlast st"

text \<open>\<^verbatim>\<open>this.stack[this.stack.length - 1 - offset]\<close>, undefined below the bottom.\<close>

definition peek :: "ParentStack \<Rightarrow> nat \<Rightarrow> frame option" where
  "peek st offset = (if offset < length st then Some (st ! (length st - 1 - offset)) else None)"

text \<open>Writing a property of the frame that \<open>peek st offset\<close> refers to.\<close>

definition poke :: "ParentStack \<Rightarrow> nat \<Rightarrow> frame \<Rightarrow> ParentStack" where
  "poke st offset f = st[length st - 1 - offset := f]"

definition enableFixedChildLength :: "ParentStack \<Rightarrow> error + ParentStack" where
  "enableFixedChildLength st =
     (case peek st 0 of
        None \<Rightarrow> Inl TypeError
      | Some f \<Rightarrow> Inr (poke st 0 (f\<lparr>frame_fixedChildLength := VNum (- 1)\<rparr>)))"

text \<open>A rule name that is undefined reads the property \<^verbatim>\<open>undefined\<close>.\<close>

definition prop_of :: "string option \<Rightarrow> string" where
  "prop_of ruleName = (case ruleName of None \<Rightarrow> ''undefined'' | Some n \<Rightarrow> n)"

text \<open>\<^verbatim>\<open>parentInfo.prevChildValues[ruleName]\<close>, undefined when nothing is recorded.\<close>

definition prevChildValueOf :: "frame \<Rightarrow> string option \<Rightarrow> jsval" where
  "prevChildValueOf parentInfo ruleName =
     (case prevChildValues parentInfo of
        None \<Rightarrow> VUndef
      | Some m \<Rightarrow> own_property m (prop_of ruleName))"

definition setPrevChildValue :: "ParentStack \<Rightarrow> string option \<Rightarrow> jsval \<Rightarrow> ParentStack" where
  "setPrevChildValue st ruleName v =
     (case peek st 1 of
        None \<Rightarrow> st
      | Some parentInfo \<Rightarrow>
          poke st 1 (parentInfo\<lparr>prevChildValues :=
            Some (set_property (case prevChildValues parentInfo of None \<Rightarrow> [] | Some m \<Rightarrow> m)
                    (prop_of ruleName) v)\<rparr>))"

text \<open>\<^verbatim>\<open>processSortingRules\<close>. The previous value is read once, before the three checks.\<close>

definition processSortingRules ::
  "string \<Rightarrow> rule \<Rightarrow> string option \<Rightarrow> jsval \<Rightarrow> ParentStack \<Rightarrow> error + ParentStack" where
  "processSortingRules key rule ruleName v st =
     (case peek st 1 of
        None \<Rightarrow> Inl TypeError
      | Some parentInfo \<Rightarrow>
          let prevChildValue = prevChildValueOf parentInfo ruleName in
          if ascending rule \<and> prevChildValue \<noteq> VUndef \<and> js_gt prevChildValue v
          then Inl (TrackValidationError key BreaksAscendingOrder)
          else
            let st1 = (if ascending rule then setPrevChildValue st ruleName v else st) in
            if descending rule \<and> prevChildValue \<noteq> VUndef \<and> js_lt prevChildValue v
            then Inl (TrackValidationError key BreaksDescendingOrder)
            else
              let st2 = (if descending rule then setPrevChildValue st1 ruleName v else st1) in
              if noRepeat rule \<and> prevChildValue \<noteq> VUndef \<and> js_strict_eq prevChildValue v
              then Inl (TrackValidationError key RepeatsPreviousSibling)
              else Inr (if noRepeat rule then setPrevChildValue st2 ruleName v else st2))"

text \<open>\<^verbatim>\<open>processSiblingRules\<close>. Without a frame one level up nothing is checked.\<close>

definition processSiblingRules ::
  "string \<Rightarrow> rule \<Rightarrow> string option \<Rightarrow> jsval \<Rightarrow> ParentStack \<Rightarrow> error + ParentStack" where
  "processSiblingRules key rule ruleName v st =
     (case peek st 1 of
        None \<Rightarrow> Inr st
      | Some parentInfo \<Rightarrow>
          if truthy (frame_fixedChildLength parentInfo) then
            (if js_strict_eq (frame_fixedChildLength parentInfo) (VNum (- 1)) then
               (case js_length v of
                  Inl e \<Rightarrow> Inl e
                | Inr l \<Rightarrow>
                    processSortingRules key rule ruleName v
                      (poke st 1 (parentInfo\<lparr>frame_fixedChildLength := l\<rparr>)))
             else
               (case js_length v of
                  Inl e \<Rightarrow> Inl e
                | Inr l \<Rightarrow>
                    if \<not> js_strict_eq (frame_fixedChildLength parentInfo) l
                    then Inl (TrackValidationError key DifferentLength)
                    else processSortingRules key rule ruleName v st))
          else processSortingRules key rule ruleName v st)"


section \<open>Iteration strategies\<close>

text \<open>
  Each strategy of the source walks the parent value and calls the callback with
  \<^verbatim>\<open>(parent[valueName], ruleName, valueName)\<close>. The model returns the successive
  \<open>(ruleName, valueName)\<close> pairs; the caller reads \<^verbatim>\<open>parent[valueName]\<close> when it makes the
  call, as the source does. A rule name read beyond the end of \<^verbatim>\<open>ruleNames\<close> is
  undefined (\<open>None\<close>).
\<close>

type_synonym calls = "(string option \<times> propname) list"

definition nth_or_undefined :: "'a list \<Rightarrow> int \<Rightarrow> 'a option" where
  "nth_or_undefined xs i = (if 0 \<le> i \<and> i < int (length xs) then Some (xs ! nat i) else None)"

text \<open>\<^verbatim>\<open>Array.prototype.indexOf\<close>: the first position of the element, or -1.\<close>

fun indexOf :: "'a list \<Rightarrow> 'a \<Rightarrow> int" where
  "indexOf [] x = - 1"
| "indexOf (y # ys) x =
     (if y = x then 0 else (let r = indexOf ys x in if r < 0 then - 1 else r + 1))"

text \<open>\<^verbatim>\<open>wildcardRule.required\<close>: an array of alternatives has no such property.\<close>

fun entry_required :: "rule_entry \<Rightarrow> bool" where
  "entry_required (Node r) = required r"
| "entry_required (Alternatives _) = False"

definition iterateArrayWithRulesWildcard :: "jsval list \<Rightarrow> rulemap \<Rightarrow> error + calls" where
  "iterateArrayWithRulesWildcard array rules =
     (let ruleNames = map fst rules in
      case map_of rules wildcardRuleName of
        None \<Rightarrow> Inl TypeError
      | Some wildcardRule \<Rightarrow>
          let maybeRequiredRuleCount =
                int (length ruleNames) - (if entry_required wildcardRule then 0 else 1);
              total = max (int (length array)) maybeRequiredRuleCount;
              wildcardIndex = indexOf ruleNames wildcardRuleName;
              nonWildcardRulesAtEnd = int (length ruleNames) - 1 - wildcardIndex;
              wildcardEndIndex = total - nonWildcardRulesAtEnd - 1
          in Inr (map (\<lambda>n.
                    let i = int n;
                        ruleIndex =
                          (if i > wildcardEndIndex then i - wildcardEndIndex + 1
                           else if i \<ge> wildcardIndex \<and> i \<le> wildcardEndIndex then wildcardIndex
                           else i)
                    in (nth_or_undefined ruleNames ruleIndex, Index n))
                  [0 ..< nat total]))"

text \<open>With no rule name at all, \<^verbatim>\<open>i % 0\<close> is NaN and the rule name read is undefined.\<close>

definition iterateArrayWithRules :: "jsval list \<Rightarrow> rulemap \<Rightarrow> calls" where
  "iterateArrayWithRules array rules =
     (let ruleNames = map fst rules;
          total = max (length array) (length ruleNames)
      in map (\<lambda>i.
                let ruleIndex = (if ruleNames = [] then None else Some (i mod length ruleNames))
                in (case ruleIndex of
                      None \<Rightarrow> None
                    | Some j \<Rightarrow> nth_or_undefined ruleNames (int j), Index i))
             [0 ..< total])"

text \<open>The object strategies. Reading a property of null or undefined throws; a number or
  boolean has no own property. (\<^verbatim>\<open>validate\<close> is documented to take an object and
  \<^verbatim>\<open>processRule\<close> descends into values of type object only, so no other primitive gets
  here; \<^verbatim>\<open>Object.keys\<close> of one throws.)\<close>

definition iterateObjectWithRules :: "jsval \<Rightarrow> rulemap \<Rightarrow> error + calls" where
  "iterateObjectWithRules obj rules =
     (let ruleNames = map fst rules in
      if (obj = VNull \<or> obj = VUndef) \<and> ruleNames \<noteq> [] then Inl TypeError
      else Inr (map (\<lambda>ruleName. (Some ruleName, Name ruleName)) ruleNames))"

definition iterateObjectWithRulesWildcard :: "jsval \<Rightarrow> rulemap \<Rightarrow> error + calls" where
  "iterateObjectWithRulesWildcard obj rules =
     (case obj of
        VObj ps \<Rightarrow>
          let valueNames = map fst ps;
              ruleNames = map fst rules;
              explicitNames = filter (\<lambda>name. name \<noteq> wildcardRuleName) ruleNames;
              implicitNames = filter (\<lambda>name. indexOf explicitNames name = - 1) valueNames;
              names = explicitNames @ implicitNames
          in Inr (map (\<lambda>name.
                    (Some (if map_of rules name = None then wildcardRuleName else name), Name name))
                  names)
      | _ \<Rightarrow> Inl TypeError)"

section \<open>Conditional rules\<close>

text \<open>The loop \<^verbatim>\<open>rule.some(..)\<close> of \<^verbatim>\<open>selectConditionalRule\<close>: the first alternative whose
  condition holds. A falsy condition (absent or the empty string) is skipped.\<close>

fun someCondition ::
  "options \<Rightarrow> rule list \<Rightarrow> jsval \<Rightarrow> jsval \<Rightarrow> string \<Rightarrow> error + rule option" where
  "someCondition opts [] v parentValue key = Inr None"
| "someCondition opts (r # rs) v parentValue key =
     (case condition r of
        None \<Rightarrow> someCondition opts rs v parentValue key
      | Some c \<Rightarrow>
          if c = [] then someCondition opts rs v parentValue key
          else
            (case conditions opts of
               None \<Rightarrow> Inl TypeError
             | Some conds \<Rightarrow>
                 (case conds c of
                    None \<Rightarrow> Inl (TrackValidationError key (InvalidConditionName c))
                  | Some cond \<Rightarrow>
                      if cond parentValue v then Inr (Some r)
                      else someCondition opts rs v parentValue key)))"

definition selectConditionalRule ::
  "options \<Rightarrow> rule_entry \<Rightarrow> jsval \<Rightarrow> jsval \<Rightarrow> string \<Rightarrow> error + rule" where
  "selectConditionalRule opts entry v parentValue key =
     (case entry of
        Node rule \<Rightarrow> Inr rule
      | Alternatives alts \<Rightarrow>
          let elseConditions = filter (\<lambda>selector. condition selector = None) alts in
          (case someCondition opts alts v parentValue key of
             Inl e \<Rightarrow> Inl e
           | Inr (Some selectedRule) \<Rightarrow> Inr selectedRule
           | Inr None \<Rightarrow>
               (case elseConditions of
                  [] \<Rightarrow> Inr emptyRule
                | r # _ \<Rightarrow> Inr r)))"


section \<open>The rule engine\<close>

text \<open>Sequencing of steps that may throw.\<close>

definition andThen :: "error + 'a \<Rightarrow> ('a \<Rightarrow> error + 'b) \<Rightarrow> error + 'b" where
  "andThen m f = (case m of Inl e \<Rightarrow> Inl e | Inr x \<Rightarrow> f x)"

text \<open>The part of \<^verbatim>\<open>processRule\<close> between the early return and the descent into
  \<^verbatim>\<open>childRules\<close>: the format, the constraints on the value (each applied when its
  property of the rule is truthy, and to the value as it was passed in), then the sibling
  rules. It yields the converted value (\<open>None\<close>: the value itself) and the stack.\<close>

definition checkConstraints ::
  "formats \<Rightarrow> options \<Rightarrow> string \<Rightarrow> rule \<Rightarrow> string option \<Rightarrow> jsval \<Rightarrow> ParentStack
     \<Rightarrow> error + (jsval option \<times> ParentStack)" where
  "checkConstraints F opts key rule ruleName v st =
     andThen (case format rule of
                Some fmt \<Rightarrow> if fmt \<noteq> [] then isCorrectFormat F opts fmt v key else Inr None
              | None \<Rightarrow> Inr None) (\<lambda>convertedValue.
     andThen (case allowedValues rule of
                Some allowed \<Rightarrow> isAllowedValue allowed v key
              | None \<Rightarrow> Inr ()) (\<lambda>_.
     andThen (case range_c rule of
                Some r \<Rightarrow> isInRange r v key
              | None \<Rightarrow> Inr ()) (\<lambda>_.
     andThen (case minLength rule of
                Some n \<Rightarrow> if n \<noteq> 0 then isMinLength n v key else Inr ()
              | None \<Rightarrow> Inr ()) (\<lambda>_.
     andThen (case maxLength rule of
                Some n \<Rightarrow> if n \<noteq> 0 then isMaxLength n v key else Inr ()
              | None \<Rightarrow> Inr ()) (\<lambda>_.
     andThen (case length_c rule of
                Some n \<Rightarrow> if n \<noteq> 0 then isLength n v key else Inr ()
              | None \<Rightarrow> Inr ()) (\<lambda>_.
     andThen (if fixedChildLength rule then enableFixedChildLength st else Inr st) (\<lambda>st1.
     andThen (processSiblingRules key rule ruleName v st1) (\<lambda>st2.
     Inr (convertedValue, st2)))))))))"

text \<open>The key of a child, as the callback in \<^verbatim>\<open>processChildRules\<close> builds it.\<close>

fun show_propname :: "propname \<Rightarrow> string" where
  "show_propname (Index i) = show_nat i"
| "show_propname (Name n) = n"

definition childKey :: "string \<Rightarrow> bool \<Rightarrow> bool \<Rightarrow> propname \<Rightarrow> string option \<Rightarrow> string" where
  "childKey parentKey isArr hasMultipleRules valueName ruleName =
     (if isArr then
        (if hasMultipleRules
         then parentKey @ ''['' @ show_propname valueName @ '',rule='' @ prop_of ruleName @ '']''
         else parentKey @ ''['' @ show_propname valueName @ '']'')
      else parentKey @ (if parentKey \<noteq> [] then ''.'' else []) @ show_propname valueName)"

text \<open>The descent mutates a child object in place; the parent then holds the mutated
  child at the position it read it from.\<close>

definition putBack :: "jsval \<Rightarrow> propname \<Rightarrow> jsval \<Rightarrow> jsval" where
  "putBack parentValue valueName v =
     (if js_get parentValue valueName = VUndef then parentValue
      else js_set parentValue valueName v)"

text \<open>The choice of the strategy in \<^verbatim>\<open>processChildRules\<close>.\<close>

definition iterate :: "jsval \<Rightarrow> rulemap \<Rightarrow> error + calls" where
  "iterate parentValue rules =
     (let hasWildcard = (map_of rules wildcardRuleName \<noteq> None) in
      case parentValue of
        VArr array \<Rightarrow>
          if hasWildcard then iterateArrayWithRulesWildcard array rules
          else Inr (iterateArrayWithRules array rules)
      | _ \<Rightarrow>
          if hasWildcard then iterateObjectWithRulesWildcard parentValue rules
          else iterateObjectWithRules parentValue rules)"

text \<open>The recursion descends along the rule tree: the rule selected for a child is an
  entry of the rule map (or the empty rule), and \<^verbatim>\<open>childRules\<close> is a part of its rule.\<close>

lemma someCondition_mem:
  "someCondition opts alts v pv key = Inr (Some r) \<Longrightarrow> r \<in> set alts"
  by (induction alts) (auto split: option.splits if_splits)

lemma childRules_size:
  "childRules rule = Some rules \<Longrightarrow> size_list (size_prod (\<lambda>x. 0) size) rules < size rule"
  by (cases rule) simp

lemma map_of_size:
  "map_of rules k = Some entry \<Longrightarrow> size entry + 2 \<le> size_list (size_prod (\<lambda>x. 0) size) rules"
  by (induction rules) (auto split: if_splits)

lemma filter_head_mem: "filter P xs = r # ys \<Longrightarrow> r \<in> set xs"
proof -
  assume "filter P xs = r # ys"
  then have "r \<in> set (filter P xs)" by simp
  then show ?thesis by simp
qed

lemma select_mem:
  "selectConditionalRule opts (Alternatives alts) v pv key = Inr r
     \<Longrightarrow> r = emptyRule \<or> r \<in> set alts"
  by (auto simp: selectConditionalRule_def
           split: sum.splits option.splits list.splits
           dest: someCondition_mem filter_head_mem)

lemma select_size:
  assumes "map_of rules k = Some entry" "selectConditionalRule opts entry v pv key = Inr r"
  shows "size r < size_list (size_prod (\<lambda>x. 0) size) rules"
proof -
  have "size r \<le> size entry + 1"
  proof (cases entry)
    case (Node r')
    with assms(2) show ?thesis by (simp add: selectConditionalRule_def)
  next
    case (Alternatives alts)
    with assms(2) have "r = emptyRule \<or> r \<in> set alts" by (simp add: select_mem)
    then show ?thesis
    proof
      assume "r = emptyRule"
      with Alternatives show ?thesis by (simp add: emptyRule_def)
    next
      assume "r \<in> set alts"
      then have "size r \<le> size_list size alts" by (rule size_list_estimation') simp
      with Alternatives show ?thesis by simp
    qed
  qed
  with map_of_size [OF assms(1)] show ?thesis by simp
qed

text \<open>
  \<^verbatim>\<open>processRule\<close>, \<^verbatim>\<open>processChildRules\<close> and the callback the latter hands to the
  strategy (\<open>forEachCall\<close> runs it over the successive calls). Each returns what it
  returns or throws, paired with the value it was given as the in-place mutations have
  left it, so that the data can be inspected after a failure too. A rule map with no
  entry under the rule name makes \<^verbatim>\<open>rule\<close> undefined, and reading \<^verbatim>\<open>rule.required\<close>
  throws (in debug mode \<^verbatim>\<open>JSON.parse\<close> throws before that). The trace that the debug
  mode prints is not modelled.
\<close>

function
  processRule ::
    "formats \<Rightarrow> options \<Rightarrow> string \<Rightarrow> rule \<Rightarrow> string option \<Rightarrow> jsval \<Rightarrow> ParentStack
       \<Rightarrow> (error + jsval \<times> ParentStack) \<times> jsval"
and processChildRules ::
    "formats \<Rightarrow> options \<Rightarrow> string \<Rightarrow> rulemap \<Rightarrow> jsval \<Rightarrow> ParentStack
       \<Rightarrow> (error + ParentStack) \<times> jsval"
and forEachCall ::
    "formats \<Rightarrow> options \<Rightarrow> string \<Rightarrow> rulemap \<Rightarrow> calls \<Rightarrow> jsval \<Rightarrow> ParentStack
       \<Rightarrow> (error + ParentStack) \<times> jsval"
where
  "processRule F opts key rule ruleName v st =
     (case (if required rule then isRequired v key else Inr ()) of
        Inl e \<Rightarrow> (Inl e, v)
      | Inr _ \<Rightarrow>
          if v = VUndef then (Inr (VUndef, st), v)
          else
            (case checkConstraints F opts key rule ruleName v st of
               Inl e \<Rightarrow> (Inl e, v)
             | Inr (convertedValue, st1) \<Rightarrow>
                 (case childRules rule of
                    None \<Rightarrow> (Inr (case convertedValue of None \<Rightarrow> v | Some c \<Rightarrow> c, st1), v)
                  | Some rules \<Rightarrow>
                      if \<not> typeof_object v
                      then (Inl (TrackValidationError key ExpectedObjectOrArray), v)
                      else
                        (case processChildRules F opts key rules v st1 of
                           (Inl e, v') \<Rightarrow> (Inl e, v')
                         | (Inr st2, v') \<Rightarrow>
                             (Inr (case convertedValue of None \<Rightarrow> v' | Some c \<Rightarrow> c, st2), v')))))"
| "processChildRules F opts parentKey rules parentValue st =
     (let hasWildcard = (map_of rules wildcardRuleName \<noteq> None);
          isArr = isArray parentValue;
          st0 = push st
      in case iterate parentValue rules of
           Inl e \<Rightarrow> (Inl e, parentValue)
         | Inr cs \<Rightarrow>
             (case forEachCall F opts parentKey rules cs parentValue st0 of
                (Inl e, pv) \<Rightarrow> (Inl e, pv)
              | (Inr st1, pv) \<Rightarrow>
                  if filter_opt opts \<and> \<not> isArr \<and> \<not> hasWildcard
                  then (case pv of
                          VObj obj \<Rightarrow> (Inr (pop st1), VObj (applyFilterForObject obj rules))
                        | _ \<Rightarrow> (Inl TypeError, pv))
                  else (Inr (pop st1), pv)))"
| "forEachCall F opts parentKey rules [] parentValue st = (Inr st, parentValue)"
| "forEachCall F opts parentKey rules ((ruleName, valueName) # cs) parentValue st =
     (let v = js_get parentValue valueName;
          key = childKey parentKey (isArray parentValue) (length rules > 1) valueName ruleName
      in case map_of rules (prop_of ruleName) of
           None \<Rightarrow> (Inl (if debug opts then SyntaxError else TypeError), parentValue)
         | Some entry \<Rightarrow>
             (case selectConditionalRule opts entry v parentValue key of
                Inl e \<Rightarrow> (Inl e, parentValue)
              | Inr rule \<Rightarrow>
                  (case processRule F opts key rule ruleName v st of
                     (Inl e, v') \<Rightarrow> (Inl e, putBack parentValue valueName v')
                   | (Inr (convertedValue, st1), v') \<Rightarrow>
                       forEachCall F opts parentKey rules cs
                         (if convertedValue \<noteq> VUndef \<and> convert opts
                          then js_set parentValue valueName convertedValue
                          else putBack parentValue valueName v')
                         st1)))"
  by pat_completeness auto
termination
  apply (relation "measures
     [\<lambda>x. case x of
            Inl (F, opts, key, rule, ruleName, v, st) \<Rightarrow> size rule
          | Inr (Inl (F, opts, key, rules, pv, st)) \<Rightarrow> size_list (size_prod (\<lambda>x. 0) size) rules
          | Inr (Inr (F, opts, key, rules, cs, pv, st)) \<Rightarrow> size_list (size_prod (\<lambda>x. 0) size) rules,
      \<lambda>x. case x of
            Inl _ \<Rightarrow> 0
          | Inr (Inl _) \<Rightarrow> 1
          | Inr (Inr _) \<Rightarrow> 0,
      \<lambda>x. case x of
            Inl _ \<Rightarrow> 0
          | Inr (Inl _) \<Rightarrow> 0
          | Inr (Inr (F, opts, key, rules, cs, pv, st)) \<Rightarrow> length cs]")
  subgoal by simp
  subgoal by (simp add: childRules_size)
  subgoal by simp
  subgoal by (simp add: select_size)
  subgoal by simp
  done

declare processRule.simps [simp del]
declare processChildRules.simps [simp del]



section \<open>The entry point\<close>

text \<open>The options as the caller gives them: any of them may be missing.\<close>

record given_options =
  given_filter :: "bool option"
  given_debug :: "bool option"
  given_convert :: "bool option"
  given_conditions :: "(string \<Rightarrow> (jsval \<Rightarrow> jsval \<Rightarrow> bool) option) option"

definition no_options :: given_options where
  "no_options = \<lparr>given_filter = None, given_debug = None, given_convert = None,
                  given_conditions = None\<rparr>"

text \<open>\<^verbatim>\<open>_.extend({}, defaultOptions, options)\<close>.\<close>

definition extend :: "options \<Rightarrow> given_options \<Rightarrow> options" where
  "extend d g =
     \<lparr>filter_opt = (case given_filter g of None \<Rightarrow> filter_opt d | Some b \<Rightarrow> b),
      debug = (case given_debug g of None \<Rightarrow> debug d | Some b \<Rightarrow> b),
      convert = (case given_convert g of None \<Rightarrow> convert d | Some b \<Rightarrow> b),
      conditions = (case given_conditions g of None \<Rightarrow> conditions d | Some c \<Rightarrow> Some c)\<rparr>"

text \<open>\<^verbatim>\<open>validate(data, rules, options)\<close> on an object \<open>data\<close>. The result is the error
  thrown (\<open>None\<close> when the call returns) and the data as the call leaves it.\<close>

definition validate ::
  "formats \<Rightarrow> (string \<times> jsval) list \<Rightarrow> rulemap \<Rightarrow> given_options \<Rightarrow> error option \<times> jsval" where
  "validate F data rules options =
     (let currentOptions = extend defaultOptions options in
      case processChildRules F currentOptions [] rules (VObj data) [] of
        (Inl e, data') \<Rightarrow> (Some e, data')
      | (Inr _, data') \<Rightarrow> (None, data'))"

section \<open>Formats\<close>

text \<open>
  The engine reaches the format library only through the two tables. The entries of
  \<^verbatim>\<open>validatorformats.js\<close> for the formats string, object, array, number and boolean
  are given here, for use in examples; the results about the engine hold for any tables.
\<close>

text \<open>\<^verbatim>\<open>parseInt(s, 10)\<close>: leading white space, an optional sign, then the longest run of
  decimal digits; NaN (\<open>None\<close>) when there is no digit.\<close>

definition parseInt10 :: "string \<Rightarrow> int option" where
  "parseInt10 s =
     (let t = dropWhile is_space s;
          neg = (t \<noteq> [] \<and> hd t = CHR ''-'');
          u = (if t \<noteq> [] \<and> (hd t = CHR ''-'' \<or> hd t = CHR ''+'') then tl t else t);
          ds = takeWhile is_digit u
      in if ds = [] then None
         else Some (if neg then - int (digits_value ds) else int (digits_value ds)))"

fun validator_string :: "jsval \<Rightarrow> bool option" where
  "validator_string (VStr _) = Some True"
| "validator_string _ = Some False"

fun validator_object :: "jsval \<Rightarrow> bool option" where
  "validator_object v = Some (typeof_object v \<and> \<not> isArray v)"

fun validator_array :: "jsval \<Rightarrow> bool option" where
  "validator_array v = Some (isArray v)"

fun validator_number :: "jsval \<Rightarrow> bool option" where
  "validator_number (VNum _) = Some True"
| "validator_number _ = Some False"

fun validator_boolean :: "jsval \<Rightarrow> bool option" where
  "validator_boolean (VBool _) = Some True"
| "validator_boolean _ = Some False"

fun converter_number :: "jsval \<Rightarrow> thrown + jsval" where
  "converter_number (VNum n) = Inr (VNum n)"
| "converter_number (VStr s) =
     (case parseInt10 s of
        Some n \<Rightarrow> Inr (VNum n)
      | None \<Rightarrow> Inl (ThrownString ''NaN is not a number or a number string''))"
| "converter_number v = Inl (ThrownString (js_to_string v @ '' is not a number or a number string''))"

definition converter_boolean :: "jsval \<Rightarrow> thrown + jsval" where
  "converter_boolean v = Inr (VBool (truthy v))"

definition basic_formats :: formats where
  "basic_formats =
     \<lparr>validators =
        map_of [(''string'', validator_string), (''object'', validator_object),
                (''array'', validator_array), (''number'', validator_number),
                (''boolean'', validator_boolean)],
      converters =
        map_of [(''number'', converter_number), (''boolean'', converter_boolean)]\<rparr>"


section \<open>Rules used in examples\<close>

text \<open>\<^verbatim>\<open>{ascending: true}\<close> and \<^verbatim>\<open>{childRules: rules}\<close>.\<close>

definition ascending_rule :: rule where
  "ascending_rule = Rule False None None None None None None None True False False False None"

definition children :: "rulemap \<Rightarrow> rule" where
  "children rules = Rule False None None None None None None (Some rules) False False False False None"

text \<open>\<^verbatim>\<open>{condition: c}\<close>, \<^verbatim>\<open>{required: true}\<close>, \<^verbatim>\<open>{format: 'string'}\<close>, and a rule
  with all four sibling flags.\<close>

definition when_rule :: "string \<Rightarrow> rule" where
  "when_rule c = Rule False None None None None None None None False False False False (Some c)"

definition required_rule :: rule where
  "required_rule = Rule True None None None None None None None False False False False None"

definition string_rule :: rule where
  "string_rule = Rule False (Some ''string'') None None None None None None False False False False None"



definition fixed_length_rule :: "rulemap option \<Rightarrow> rule" where
  "fixed_length_rule rules =
     Rule False None None None None None None rules False False False True None"

section \<open>Vocabulary of the properties\<close>





text \<open>Two values with the same own keys: objects with the same names in the same order,
  arrays of the same length.\<close>

definition same_keys :: "jsval \<Rightarrow> jsval \<Rightarrow> bool" where
  "same_keys a b =
     (case a of
        VObj ps \<Rightarrow> (case b of VObj qs \<Rightarrow> map fst qs = map fst ps | _ \<Rightarrow> False)
      | VArr xs \<Rightarrow> (case b of VArr ys \<Rightarrow> length ys = length xs | _ \<Rightarrow> False)
      | _ \<Rightarrow> b = a)"

text \<open>All frames of a stack but the top \<open>k\<close> are the same in another stack of the same
  height.\<close>

definition frames_kept :: "nat \<Rightarrow> ParentStack \<Rightarrow> ParentStack \<Rightarrow> bool" where
  "frames_kept k st st' =
     (length st' = length st \<and> take (length st - k) st' = take (length st - k) st)"

text \<open>What a value that passed the sibling checks tells about the frame one level up
  before (\<open>p\<close>) and after (\<open>p1\<close>): the value is recorded under the rule name if the rule
  has an ordering flag; a pending length is sealed to the length of the value, a sealed
  truthy one is identical to it; and no ordering check of the rule is violated.\<close>

definition sibling_effect :: "rule \<Rightarrow> string option \<Rightarrow> jsval \<Rightarrow> frame \<Rightarrow> frame \<Rightarrow> bool" where
  "sibling_effect rule rn v p p1 =
     ((ascending rule \<or> descending rule \<or> noRepeat rule \<longrightarrow> prevChildValueOf p1 rn = v)
      \<and> (if truthy (frame_fixedChildLength p)
          then (case js_length v of
                  Inl e \<Rightarrow> False
                | Inr l \<Rightarrow>
                    if js_strict_eq (frame_fixedChildLength p) (VNum (- 1))
                    then frame_fixedChildLength p1 = l
                    else js_strict_eq (frame_fixedChildLength p) l
                         \<and> frame_fixedChildLength p1 = frame_fixedChildLength p)
          else frame_fixedChildLength p1 = frame_fixedChildLength p)
      \<and> \<not> (ascending rule \<and> prevChildValueOf p rn \<noteq> VUndef \<and> js_lt v (prevChildValueOf p rn))
      \<and> \<not> (descending rule \<and> prevChildValueOf p rn \<noteq> VUndef \<and> js_gt v (prevChildValueOf p rn))
      \<and> \<not> (noRepeat rule \<and> prevChildValueOf p rn \<noteq> VUndef
             \<and> js_strict_eq (prevChildValueOf p rn) v))"

text \<open>The values of the children that the calls of a level read and that are defined,
  in the order of the calls.\<close>

definition children_values :: "jsval \<Rightarrow> calls \<Rightarrow> jsval list" where
  "children_values pv cs = filter (\<lambda>x. x \<noteq> VUndef) (map (\<lambda>c. js_get pv (snd c)) cs)"

section \<open>Iteration over a sequence\<close>

text \<open>
  Claim C1 (head and tail anchoring around the wildcard). The claim asks that the last
  \<open>t\<close> positions use the \<open>t\<close> rules declared after the wildcard. The source computes
  the rule index of a position behind the wildcard as \<^verbatim>\<open>i - wildcardEndIndex + 1\<close>,
  which is the intended \<^verbatim>\<open>i - wildcardEndIndex + wildcardIndex\<close> only when exactly one
  rule precedes the wildcard. With two head rules \<open>a\<close>, \<open>b\<close> and one tail rule \<open>c\<close>, the
  last of five positions is given the wildcard instead of \<open>c\<close>, so that a number passes
  where \<open>c\<close> asks for a string; with no head rule and one tail rule \<open>b\<close>, the last of
  three positions reads a rule name beyond the end of the names and gets none, and the
  call ends with a \<^verbatim>\<open>TypeError\<close>.
\<close>

theorem C1_tail_rule_index_slip:
  "iterateArrayWithRulesWildcard [VNum 1, VNum 2, VNum 3, VNum 4, VNum 5]
      [(''a'', Node emptyRule), (''b'', Node emptyRule), (''*'', Node emptyRule),
       (''c'', Node string_rule)]
     = Inr [(Some ''a'', Index 0), (Some ''b'', Index 1), (Some ''*'', Index 2),
            (Some ''*'', Index 3), (Some ''*'', Index 4)]
   \<and> validate basic_formats [(''list'', VArr [VNum 1, VNum 2, VNum 3, VNum 4, VNum 5])]
      [(''list'', Node (children
          [(''a'', Node emptyRule), (''b'', Node emptyRule), (''*'', Node emptyRule),
           (''c'', Node string_rule)]))] no_options
     = (None, VObj [(''list'', VArr [VNum 1, VNum 2, VNum 3, VNum 4, VNum 5])])
   \<and> iterateArrayWithRulesWildcard [VNum 1, VNum 2, VNum 3]
      [(''*'', Node emptyRule), (''b'', Node emptyRule)]
     = Inr [(Some ''*'', Index 0), (Some ''*'', Index 1), (None, Index 2)]
   \<and> validate basic_formats [(''list'', VArr [VNum 1, VNum 2, VNum 3])]
      [(''list'', Node (children [(''*'', Node emptyRule), (''b'', Node emptyRule)]))] no_options
     = (Some TypeError, VObj [(''list'', VArr [VNum 1, VNum 2, VNum 3])])"
  by code_simp





section \<open>Sibling state\<close>

lemma length_poke [simp]: "length (poke st off f) = length st"
  by (simp add: poke_def)

lemma peek_Some_length: "peek st off = Some f \<Longrightarrow> off < length st"
  by (simp add: peek_def split: if_splits)

lemma peek_poke: "off < length st \<Longrightarrow> peek (poke st off f) off = Some f"
  by (simp add: peek_def poke_def)

lemma poke_poke: "poke (poke st off f) off g = poke st off g"
  by (simp add: poke_def)

lemma own_property_set_property [simp]: "own_property (set_property ps k v) k = v"
  by (induction ps) (auto simp: own_property_def)

lemma set_property_idem [simp]: "set_property (set_property ps k v) k v = set_property ps k v"
  by (induction ps) auto

lemma setPrevChildValue_idem:
  "setPrevChildValue (setPrevChildValue st ruleName v) ruleName v = setPrevChildValue st ruleName v"
proof (cases "peek st 1")
  case None
  then show ?thesis by (simp add: setPrevChildValue_def)
next
  case (Some p)
  then have len: "1 < length st" by (rule peek_Some_length)
  define m where "m = set_property (case prevChildValues p of None \<Rightarrow> [] | Some m \<Rightarrow> m) (prop_of ruleName) v"
  have first: "setPrevChildValue st ruleName v = poke st 1 (p\<lparr>prevChildValues := Some m\<rparr>)"
    using Some by (simp add: setPrevChildValue_def m_def)
  have "peek (poke st 1 (p\<lparr>prevChildValues := Some m\<rparr>)) 1 = Some (p\<lparr>prevChildValues := Some m\<rparr>)"
    using len by (rule peek_poke)
  then have "setPrevChildValue (poke st 1 (p\<lparr>prevChildValues := Some m\<rparr>)) ruleName v
               = poke st 1 (p\<lparr>prevChildValues := Some (set_property m (prop_of ruleName) v)\<rparr>)"
    by (simp add: setPrevChildValue_def poke_poke)
  also have "set_property m (prop_of ruleName) v = m"
    by (simp add: m_def)
  finally show ?thesis using first by simp
qed


lemma string_less_irrefl [simp]: "\<not> string_less s s"
  by (induction s) auto






text \<open>
  Claim C9 (ordering state shared by sibling containers). The values recorded for the
  children of a container live in the frame of the level the container itself is in,
  under the rule name alone. Each of the containers \<^verbatim>\<open>a: [1,2,3]\<close> and \<^verbatim>\<open>b: [1,2,3]\<close>
  passes alone; after the children of \<open>a\<close> the frame of the root level holds 3 for the
  wildcard; and with both containers in one object the first child of \<open>b\<close> is compared
  with that 3 and fails.
\<close>

theorem C9_ordering_state_shared_between_containers:
  "validate F [(''a'', VArr [VNum 1, VNum 2, VNum 3])]
       [(''a'', Node (children [(''*'', Node ascending_rule)]))] no_options
     = (None, VObj [(''a'', VArr [VNum 1, VNum 2, VNum 3])])
   \<and> validate F [(''b'', VArr [VNum 1, VNum 2, VNum 3])]
       [(''b'', Node (children [(''*'', Node ascending_rule)]))] no_options
     = (None, VObj [(''b'', VArr [VNum 1, VNum 2, VNum 3])])
   \<and> processChildRules F defaultOptions ''a'' [(''*'', Node ascending_rule)]
       (VArr [VNum 1, VNum 2, VNum 3]) [emptyFrame]
     = (Inr [\<lparr>frame_fixedChildLength = VUndef, prevChildValues = Some [(''*'', VNum 3)]\<rparr>],
        VArr [VNum 1, VNum 2, VNum 3])
   \<and> validate F [(''a'', VArr [VNum 1, VNum 2, VNum 3]), (''b'', VArr [VNum 1, VNum 2, VNum 3])]
       [(''a'', Node (children [(''*'', Node ascending_rule)])),
        (''b'', Node (children [(''*'', Node ascending_rule)]))] no_options
     = (Some (TrackValidationError ''b[0]'' BreaksAscendingOrder),
        VObj [(''a'', VArr [VNum 1, VNum 2, VNum 3]), (''b'', VArr [VNum 1, VNum 2, VNum 3])])"
  by code_simp





section \<open>Validation without conversion and filtering\<close>

text \<open>Writing back the child that was read changes nothing.\<close>

lemma set_property_same: "map_of ps k = Some v \<Longrightarrow> set_property ps k v = ps"
  by (induction ps) (auto split: if_splits)

lemma putBack_same: "putBack pv n (js_get pv n) = pv"
proof (cases "js_get pv n = VUndef")
  case True
  then show ?thesis by (simp add: putBack_def)
next
  case False
  then show ?thesis
    by (cases pv; cases n)
       (auto simp: putBack_def own_property_def set_property_same split: option.splits if_splits)
qed

lemma processRule_descent:
  assumes "processRule F opts key rule rn v st = (r, v')"
  shows "v' = v \<or>
         (\<exists>b cv st1 rules.
            (if required rule then isRequired v key else Inr ()) = Inr b \<and> v \<noteq> VUndef
            \<and> checkConstraints F opts key rule rn v st = Inr (cv, st1)
            \<and> childRules rule = Some rules \<and> typeof_object v
            \<and> snd (processChildRules F opts key rules v st1) = v')"
  using assms
  by (subst (asm) processRule.simps) (auto split: sum.splits prod.splits option.splits if_splits)

lemma data_unmodified:
  shows "\<not> convert opts \<Longrightarrow> \<not> filter_opt opts \<Longrightarrow> snd (processRule F opts key rule rn v st) = v"
    and "\<not> convert opts \<Longrightarrow> \<not> filter_opt opts \<Longrightarrow> snd (processChildRules F opts key rules pv st) = pv"
    and "\<not> convert opts \<Longrightarrow> \<not> filter_opt opts \<Longrightarrow> snd (forEachCall F opts key rules cs pv st) = pv"
proof (induction F opts key rule rn v st and F opts key rules pv st and F opts key rules cs pv st
       rule: processRule_processChildRules_forEachCall.induct)
  case (1 F opts key rule ruleName v st)
  obtain r v' where pr: "processRule F opts key rule ruleName v st = (r, v')"
    by (cases "processRule F opts key rule ruleName v st")
  from processRule_descent [OF pr] have "v' = v"
  proof
    assume "v' = v"
    then show ?thesis .
  next
    assume "\<exists>b cv st1 rules.
            (if required rule then isRequired v key else Inr ()) = Inr b \<and> v \<noteq> VUndef
            \<and> checkConstraints F opts key rule ruleName v st = Inr (cv, st1)
            \<and> childRules rule = Some rules \<and> typeof_object v
            \<and> snd (processChildRules F opts key rules v st1) = v'"
    then obtain b cv st1 rules where
      req: "(if required rule then isRequired v key else Inr ()) = Inr b" and nv: "v \<noteq> VUndef"
      and cc: "checkConstraints F opts key rule ruleName v st = Inr (cv, st1)"
      and cr: "childRules rule = Some rules" and ty: "\<not> \<not> typeof_object v"
      and d: "snd (processChildRules F opts key rules v st1) = v'"
      by auto
    from "1.IH" [OF req nv cc refl cr ty] "1.prems" d show ?thesis by simp
  qed
  with pr show ?case by simp
next
  case (2 F opts parentKey rules parentValue st)
  show ?case
  proof (cases "iterate parentValue rules")
    case (Inl e)
    then show ?thesis by (simp add: processChildRules.simps)
  next
    case (Inr cs)
    obtain r1 pv1 where fe: "forEachCall F opts parentKey rules cs parentValue (push st) = (r1, pv1)"
      by (cases "forEachCall F opts parentKey rules cs parentValue (push st)")
    from "2.IH" [OF refl refl refl Inr] "2.prems" fe have "pv1 = parentValue" by simp
    with Inr fe "2.prems" show ?thesis
      by (simp add: processChildRules.simps Let_def split: sum.splits)
  qed
next
  case (3 F opts parentKey rules parentValue st)
  show ?case by simp
next
  case (4 F opts parentKey rules ruleName valueName cs parentValue st)
  let ?v = "js_get parentValue valueName"
  let ?key = "childKey parentKey (isArray parentValue) (1 < length rules) valueName ruleName"
  show ?case
  proof (cases "map_of rules (prop_of ruleName)")
    case None
    then show ?thesis by simp
  next
    case (Some entry)
    show ?thesis
    proof (cases "selectConditionalRule opts entry ?v parentValue ?key")
      case (Inl e)
      with Some show ?thesis by simp
    next
      case (Inr rule)
      have same: "snd (processRule F opts ?key rule ruleName ?v st) = ?v"
        using "4.IH"(1) [OF refl refl Some Inr] "4.prems" by simp
      obtain r v' where pr: "processRule F opts ?key rule ruleName ?v st = (r, v')"
        by (cases "processRule F opts ?key rule ruleName ?v st")
      with same have v': "v' = ?v" by simp
      show ?thesis
      proof (cases r)
        case (Inl e)
        with Some Inr pr v' show ?thesis by (simp add: putBack_same)
      next
        case (Inr res)
        obtain c st1 where res: "res = (c, st1)" by (cases res)
        have "snd (forEachCall F opts parentKey rules cs (putBack parentValue valueName v') st1)
                = putBack parentValue valueName v'"
          using "4.IH"(2) [OF refl refl Some \<open>selectConditionalRule opts entry ?v parentValue ?key = Inr rule\<close>
                              pr [symmetric] Inr res [symmetric]] "4.prems"
          by simp
        with Some \<open>selectConditionalRule opts entry ?v parentValue ?key = Inr rule\<close> pr Inr res v' "4.prems"
        show ?thesis by (simp add: putBack_same)
      qed
    qed
  qed
qed


lemma snd_validate:
  "snd (validate F data rules options)
     = snd (processChildRules F (extend defaultOptions options) [] rules (VObj data) [])"
proof -
  obtain r d where pc: "processChildRules F (extend defaultOptions options) [] rules (VObj data) [] = (r, d)"
    by (cases "processChildRules F (extend defaultOptions options) [] rules (VObj data) []")
  then show ?thesis by (cases r) (simp_all add: validate_def)
qed

text \<open>
  Claim C8 (idempotence). When neither \<^verbatim>\<open>convert\<close> nor \<^verbatim>\<open>filter\<close> is switched on,
  \<^verbatim>\<open>validate\<close> leaves the data as it was, whether it returns or throws; a second call
  on the tree the first one left, with the same rules and options, therefore has the
  same outcome. (The conditions are pure predicates and the call keeps no state of its
  own between two calls: the options are set anew and the stack is created anew.)
\<close>

theorem C8_validate_leaves_data_unmodified:
  assumes "given_convert options \<noteq> Some True" and "given_filter options \<noteq> Some True"
  shows "snd (validate F data rules options) = VObj data
         \<and> (\<forall>data'. snd (validate F data rules options) = VObj data' \<longrightarrow>
                validate F data' rules options = validate F data rules options)"
proof -
  have c: "\<not> convert (extend defaultOptions options)"
    using assms(1) by (cases "given_convert options") (auto simp: extend_def defaultOptions_def)
  have f: "\<not> filter_opt (extend defaultOptions options)"
    using assms(2) by (cases "given_filter options") (auto simp: extend_def defaultOptions_def)
  have "snd (processChildRules F (extend defaultOptions options) [] rules (VObj data) []) = VObj data"
    using c f by (rule data_unmodified(2))
  then have "snd (validate F data rules options) = VObj data"
    by (simp add: snd_validate)
  then show ?thesis by simp
qed

theorem C8_validate_leaves_data_unmodified_witness:
  "snd (validate basic_formats [(''a'', VArr [VNum 1, VNum 3, VNum 2])]
          [(''a'', Node (children [(''*'', Node ascending_rule)]))] no_options)
     = VObj [(''a'', VArr [VNum 1, VNum 3, VNum 2])]
   \<and> given_convert no_options \<noteq> Some True \<and> given_filter no_options \<noteq> Some True"
proof -
  have h1: "given_convert no_options \<noteq> Some True" by (simp add: no_options_def)
  have h2: "given_filter no_options \<noteq> Some True" by (simp add: no_options_def)
  from C8_validate_leaves_data_unmodified [OF h1 h2] h1 h2 show ?thesis by blast
qed



section \<open>Conditional alternatives\<close>

text \<open>
  Claim C4 (unknown condition name), as stated: a configuration error, not a validation
  error. Against it: with \<^verbatim>\<open>conditions: {}\<close> and the alternative
  \<^verbatim>\<open>{condition: 'isBig'}\<close>, \<^verbatim>\<open>validate\<close> throws a \<^verbatim>\<open>TrackValidationError\<close>, the
  very class it throws for a missing required value.
\<close>

theorem C4_counterexample:
  "validate basic_formats [(''a'', VNum 1)] [(''a'', Alternatives [when_rule ''isBig''])]
      (no_options\<lparr>given_conditions := Some (\<lambda>name. None)\<rparr>)
     = (Some (TrackValidationError ''a'' (InvalidConditionName ''isBig'')), VObj [(''a'', VNum 1)])
   \<and> validate basic_formats [] [(''a'', Node required_rule)] no_options
     = (Some (TrackValidationError ''a'' NotDefinedButRequired), VObj [])"
  by code_simp

lemma someCondition_append:
  "someCondition opts before v pv key = Inr None
     \<Longrightarrow> someCondition opts (before @ rest) v pv key = someCondition opts rest v pv key"
  by (induction before) (auto split: option.splits if_splits)

text \<open>
  Claim C4, amended. When the scan of the alternatives reaches an entry whose condition
  names no function of \<^verbatim>\<open>options.conditions\<close> (no alternative before it was selected),
  the selection throws a \<^verbatim>\<open>TrackValidationError\<close> with the reason "invalid condition
  name" if the caller gave a \<^verbatim>\<open>conditions\<close> option, and a \<^verbatim>\<open>TypeError\<close> if the caller
  gave none.
\<close>

theorem C4_unknown_condition_name:
  assumes "someCondition opts before v parentValue key = Inr None"
      and "condition r = Some c" and "c \<noteq> []"
      and "\<forall>conds. conditions opts = Some conds \<longrightarrow> conds c = None"
  shows "selectConditionalRule opts (Alternatives (before @ r # after)) v parentValue key
           = (case conditions opts of
                None \<Rightarrow> Inl TypeError
              | Some conds \<Rightarrow> Inl (TrackValidationError key (InvalidConditionName c)))"
proof -
  have "someCondition opts (before @ r # after) v parentValue key
          = someCondition opts (r # after) v parentValue key"
    using assms(1) by (rule someCondition_append)
  also have "\<dots> = (case conditions opts of
                None \<Rightarrow> Inl TypeError
              | Some conds \<Rightarrow> Inl (TrackValidationError key (InvalidConditionName c)))"
    using assms(2-4) by (cases "conditions opts") auto
  finally show ?thesis
    by (simp add: selectConditionalRule_def split: option.splits)
qed

theorem C4_unknown_condition_name_witness:
  "selectConditionalRule (defaultOptions\<lparr>conditions := Some (\<lambda>name. None)\<rparr>)
      (Alternatives ([emptyRule] @ when_rule ''isBig'' # [])) (VNum 1) (VObj [(''a'', VNum 1)]) ''a''
     = Inl (TrackValidationError ''a'' (InvalidConditionName ''isBig''))"
proof -
  have h1: "someCondition (defaultOptions\<lparr>conditions := Some (\<lambda>name. None)\<rparr>) [emptyRule]
              (VNum 1) (VObj [(''a'', VNum 1)]) ''a'' = Inr None"
    by (simp add: emptyRule_def)
  have h2: "condition (when_rule ''isBig'') = Some ''isBig''" by (simp add: when_rule_def)
  have h3: "''isBig'' \<noteq> []" by simp
  have h4: "\<forall>conds. conditions (defaultOptions\<lparr>conditions := Some (\<lambda>name. None)\<rparr>) = Some conds
              \<longrightarrow> conds ''isBig'' = None"
    by simp
  from C4_unknown_condition_name [OF h1 h2 h3 h4, of "[]"] show ?thesis by simp
qed


section \<open>The root level\<close>

lemma peek_single [simp]: "peek [f] (Suc 0) = None" "peek [f] 1 = None"
  by (simp_all add: peek_def)



lemma andThen_Inr: "(andThen m f = Inr y) = (\<exists>x. m = Inr x \<and> f x = Inr y)"
  by (cases m) (simp_all add: andThen_def)










lemma checkConstraints_Inr:
  "checkConstraints F opts key rule rn v st = Inr (cv, st2) \<Longrightarrow>
     \<exists>st1. (if fixedChildLength rule then enableFixedChildLength st else Inr st) = Inr st1
           \<and> processSiblingRules key rule rn v st1 = Inr st2"
  by (auto simp: checkConstraints_def andThen_Inr)

















section \<open>Filtering\<close>

text \<open>The iteration of a level writes only to positions that hold a value, so it keeps
  the keys of the parent value.\<close>

lemma same_keys_refl [simp]: "same_keys a a"
  by (simp add: same_keys_def split: jsval.splits)





lemma processRule_undefined:
  "processRule F opts key rule rn VUndef st = (Inr (ret, st1), v') \<Longrightarrow> ret = VUndef"
  by (subst (asm) processRule.simps) (auto split: sum.splits)









section \<open>Frames of the stack\<close>

text \<open>Processing a value touches the top two frames only, and processing a rule map
  gives back the stack it was given, the top frame possibly changed.\<close>

lemma frames_kept_refl [simp]: "frames_kept k st st"
  by (simp add: frames_kept_def)

lemma frames_kept_trans: "frames_kept k a b \<Longrightarrow> frames_kept k b c \<Longrightarrow> frames_kept k a c"
  by (simp add: frames_kept_def)

lemma frames_kept_mono: "frames_kept j a b \<Longrightarrow> j \<le> k \<Longrightarrow> frames_kept k a b"
proof -
  assume a: "frames_kept j a b" and jk: "j \<le> k"
  from jk have le: "length a - k \<le> length a - j" by arith
  from a have "take (length a - k) (take (length a - j) b) = take (length a - k) (take (length a - j) a)"
    by (simp add: frames_kept_def)
  with le have "take (length a - k) b = take (length a - k) a"
    by (simp add: min_absorb1)
  with a show ?thesis by (simp add: frames_kept_def)
qed

lemma frames_kept_poke: "off < k \<Longrightarrow> frames_kept k st (poke st off f)"
  by (simp add: frames_kept_def poke_def)

lemma frames_kept_peek:
  assumes "frames_kept k st st'" and "k \<le> off"
  shows "peek st' off = peek st off"
proof (cases "off < length st")
  case False
  with assms show ?thesis by (simp add: peek_def frames_kept_def)
next
  case True
  let ?i = "length st - 1 - off"
  from True assms(2) have i: "?i < length st - k" by arith
  from assms(1) have "take (length st - k) st' ! ?i = take (length st - k) st ! ?i"
    by (simp add: frames_kept_def)
  with i have "st' ! ?i = st ! ?i" by simp
  with True assms(1) show ?thesis by (simp add: peek_def frames_kept_def)
qed

lemma enableFixedChildLength_frames:
  "enableFixedChildLength st = Inr st1 \<Longrightarrow> frames_kept 1 st st1"
  by (auto simp: enableFixedChildLength_def frames_kept_poke split: option.splits)

lemma setPrevChildValue_frames: "frames_kept 2 st (setPrevChildValue st rn v)"
  by (auto simp: setPrevChildValue_def frames_kept_poke split: option.splits)

lemma processSortingRules_frames:
  "processSortingRules key rule rn v st = Inr st1 \<Longrightarrow> frames_kept 2 st st1"
proof -
  assume a: "processSortingRules key rule rn v st = Inr st1"
  then have "st1 = st \<or> st1 = setPrevChildValue st rn v"
    by (auto simp: processSortingRules_def Let_def setPrevChildValue_idem
             split: option.splits if_splits)
  then show ?thesis by (auto simp: setPrevChildValue_frames)
qed

lemma processSiblingRules_frames:
  assumes a: "processSiblingRules key rule rn v st = Inr st1"
  shows "frames_kept 2 st st1"
proof (cases "peek st 1")
  case None
  with a show ?thesis by (simp add: processSiblingRules_def)
next
  case (Some p)
  show ?thesis
  proof (cases "truthy (frame_fixedChildLength p) \<and> js_strict_eq (frame_fixedChildLength p) (VNum (- 1))")
    case True
    with a Some obtain l where
      "processSortingRules key rule rn v (poke st 1 (p\<lparr>frame_fixedChildLength := l\<rparr>)) = Inr st1"
      by (cases "js_length v") (simp_all add: processSiblingRules_def)
    then have "frames_kept 2 (poke st 1 (p\<lparr>frame_fixedChildLength := l\<rparr>)) st1"
      by (rule processSortingRules_frames)
    moreover have "frames_kept 2 st (poke st 1 (p\<lparr>frame_fixedChildLength := l\<rparr>))"
      by (simp add: frames_kept_poke)
    ultimately show ?thesis by (rule frames_kept_trans [rotated])
  next
    case False
    with a Some have "processSortingRules key rule rn v st = Inr st1"
      by (cases "js_length v") (auto simp: processSiblingRules_def split: if_splits)
    then show ?thesis by (rule processSortingRules_frames)
  qed
qed

lemma checkConstraints_frames:
  assumes "checkConstraints F opts key rule rn v st = Inr (cv, st2)"
  shows "frames_kept 2 st st2"
proof -
  from checkConstraints_Inr [OF assms] obtain st1 where
    e: "(if fixedChildLength rule then enableFixedChildLength st else Inr st) = Inr st1"
    and s: "processSiblingRules key rule rn v st1 = Inr st2"
    by blast
  from e have "frames_kept 1 st st1"
    by (auto split: if_splits dest: enableFixedChildLength_frames)
  then have "frames_kept 2 st st1" by (rule frames_kept_mono) simp
  moreover from s have "frames_kept 2 st1 st2" by (rule processSiblingRules_frames)
  ultimately show ?thesis by (rule frames_kept_trans)
qed

lemma frames_kept_pop:
  assumes "frames_kept 2 (push st) st'"
  shows "frames_kept 1 st (pop st')"
proof -
  from assms have len: "length st' = Suc (length st)"
    and tk: "take (length st - 1) st' = take (length st - 1) st"
    by (simp_all add: frames_kept_def push_def)
  have "take (length st - 1) (butlast st') = take (length st - 1) st'"
    using len by (simp add: butlast_conv_take)
  with len tk show ?thesis by (simp add: frames_kept_def pop_def)
qed

lemma processRule_result:
  assumes "processRule F opts key rule rn v st = (Inr (ret, st'), v')"
  shows "(v = VUndef \<and> st' = st \<and> ret = VUndef \<and> v' = v) \<or>
         (v \<noteq> VUndef \<and>
          (\<exists>cv st1. checkConstraints F opts key rule rn v st = Inr (cv, st1) \<and>
             ((childRules rule = None \<and> st' = st1 \<and> v' = v \<and> ret = (case cv of None \<Rightarrow> v | Some c \<Rightarrow> c)) \<or>
              (\<exists>rules b. childRules rule = Some rules \<and> typeof_object v
                 \<and> (if required rule then isRequired v key else Inr ()) = Inr b
                 \<and> processChildRules F opts key rules v st1 = (Inr st', v')
                 \<and> ret = (case cv of None \<Rightarrow> v' | Some c \<Rightarrow> c)))))"
  using assms
  by (subst (asm) processRule.simps) (auto split: sum.splits prod.splits option.splits if_splits)

lemma frames:
  shows "processRule F opts key rule rn v st = (Inr (ret, st'), v') \<Longrightarrow> frames_kept 2 st st'"
    and "processChildRules F opts key rules pv st = (Inr st', pv') \<Longrightarrow> frames_kept 1 st st'"
    and "forEachCall F opts key rules cs pv st = (Inr st', pv') \<Longrightarrow> frames_kept 2 st st'"
proof (induction F opts key rule rn v st and F opts key rules pv st and F opts key rules cs pv st
       arbitrary: ret st' v' and st' pv' and st' pv'
       rule: processRule_processChildRules_forEachCall.induct)
  case (1 F opts key rule ruleName v st)
  from processRule_result [OF "1.prems"] show ?case
  proof (elim disjE conjE exE)
    assume "st' = st"
    then show ?thesis by simp
  next
    fix cv st1
    assume "checkConstraints F opts key rule ruleName v st = Inr (cv, st1)" "st' = st1"
    then show ?thesis by (auto dest: checkConstraints_frames)
  next
    fix cv st1 rules b
    assume nv: "v \<noteq> VUndef"
      and cc: "checkConstraints F opts key rule ruleName v st = Inr (cv, st1)"
      and cr: "childRules rule = Some rules" and ty: "typeof_object v"
      and req: "(if required rule then isRequired v key else Inr ()) = Inr b"
      and pc: "processChildRules F opts key rules v st1 = (Inr st', v')"
    from ty have ty': "\<not> \<not> typeof_object v" by simp
    from "1.IH" [OF req nv cc refl cr ty' pc] have "frames_kept 1 st1 st'" .
    then have "frames_kept 2 st1 st'" by (rule frames_kept_mono) simp
    with checkConstraints_frames [OF cc] show ?thesis by (rule frames_kept_trans)
  qed
next
  case (2 F opts parentKey rules parentValue st)
  show ?case
  proof (cases "iterate parentValue rules")
    case (Inl e)
    with "2.prems" show ?thesis by (simp add: processChildRules.simps)
  next
    case (Inr cs)
    obtain r1 pv1 where fe: "forEachCall F opts parentKey rules cs parentValue (push st) = (r1, pv1)"
      by (cases "forEachCall F opts parentKey rules cs parentValue (push st)")
    show ?thesis
    proof (cases r1)
      case (Inl e)
      with "2.prems" Inr fe show ?thesis by (simp add: processChildRules.simps Let_def)
    next
      case r1: (Inr st1)
      with fe have fe': "forEachCall F opts parentKey rules cs parentValue (push st) = (Inr st1, pv1)"
        by simp
      from "2.IH" [OF refl refl refl Inr fe'] have k: "frames_kept 2 (push st) st1" .
      from "2.prems" Inr fe r1 have "st' = pop st1"
        by (auto simp: processChildRules.simps Let_def split: if_splits jsval.splits)
      with frames_kept_pop [OF k] show ?thesis by simp
    qed
  qed
next
  case (3 F opts parentKey rules parentValue st)
  then show ?case by simp
next
  case (4 F opts parentKey rules ruleName valueName cs parentValue st)
  let ?v = "js_get parentValue valueName"
  let ?key = "childKey parentKey (isArray parentValue) (1 < length rules) valueName ruleName"
  show ?case
  proof (cases "map_of rules (prop_of ruleName)")
    case None
    with "4.prems" show ?thesis by simp
  next
    case (Some entry)
    show ?thesis
    proof (cases "selectConditionalRule opts entry ?v parentValue ?key")
      case (Inl e)
      with "4.prems" Some show ?thesis by simp
    next
      case sel: (Inr rule)
      obtain r v1 where pr: "processRule F opts ?key rule ruleName ?v st = (r, v1)"
        by (cases "processRule F opts ?key rule ruleName ?v st")
      show ?thesis
      proof (cases r)
        case (Inl e)
        with "4.prems" Some sel pr show ?thesis by simp
      next
        case (Inr res)
        obtain c st1 where res: "res = (c, st1)" by (cases res)
        with pr Inr have pr': "processRule F opts ?key rule ruleName ?v st = (Inr (c, st1), v1)" by simp
        from "4.IH"(1) [OF refl refl Some sel pr'] have k1: "frames_kept 2 st st1" .
        let ?pv1 = "if c \<noteq> VUndef \<and> convert opts then js_set parentValue valueName c
                    else putBack parentValue valueName v1"
        from "4.prems" Some sel pr' have rest: "forEachCall F opts parentKey rules cs ?pv1 st1 = (Inr st', pv')"
          by simp
        from "4.IH"(2) [OF refl refl Some sel pr [symmetric] Inr res [symmetric] rest]
        have "frames_kept 2 st1 st'" .
        with k1 show ?thesis by (rule frames_kept_trans)
      qed
    qed
  qed
qed

lemma setPrevChildValue_peek:
  assumes "peek st 1 = Some p"
  shows "\<exists>p1. peek (setPrevChildValue st rn v) 1 = Some p1
              \<and> prevChildValueOf p1 rn = v
              \<and> frame_fixedChildLength p1 = frame_fixedChildLength p"
  using assms peek_Some_length [OF assms]
  by (simp add: setPrevChildValue_def peek_poke prevChildValueOf_def)

lemma processSortingRules_Inr:
  assumes p: "peek st 1 = Some p"
      and ok: "processSortingRules key rule rn v st = Inr st1"
  shows "\<exists>p1. peek st1 1 = Some p1
           \<and> frame_fixedChildLength p1 = frame_fixedChildLength p
           \<and> (ascending rule \<or> descending rule \<or> noRepeat rule \<longrightarrow> prevChildValueOf p1 rn = v)"
    and "\<not> (ascending rule \<and> prevChildValueOf p rn \<noteq> VUndef \<and> js_lt v (prevChildValueOf p rn))"
    and "\<not> (descending rule \<and> prevChildValueOf p rn \<noteq> VUndef \<and> js_gt v (prevChildValueOf p rn))"
    and "\<not> (noRepeat rule \<and> prevChildValueOf p rn \<noteq> VUndef \<and> js_strict_eq (prevChildValueOf p rn) v)"
proof -
  from ok p have "st1 = (if ascending rule \<or> descending rule \<or> noRepeat rule
                         then setPrevChildValue st rn v else st)"
    by (auto simp: processSortingRules_def Let_def setPrevChildValue_idem split: if_splits)
  with p setPrevChildValue_peek [OF p, of rn v]
  show "\<exists>p1. peek st1 1 = Some p1
           \<and> frame_fixedChildLength p1 = frame_fixedChildLength p
           \<and> (ascending rule \<or> descending rule \<or> noRepeat rule \<longrightarrow> prevChildValueOf p1 rn = v)"
    by auto
  from ok p show "\<not> (ascending rule \<and> prevChildValueOf p rn \<noteq> VUndef \<and> js_lt v (prevChildValueOf p rn))"
    by (auto simp: processSortingRules_def Let_def js_gt_def split: if_splits)
  from ok p show "\<not> (descending rule \<and> prevChildValueOf p rn \<noteq> VUndef \<and> js_gt v (prevChildValueOf p rn))"
    by (auto simp: processSortingRules_def Let_def js_gt_def split: if_splits)
  from ok p show "\<not> (noRepeat rule \<and> prevChildValueOf p rn \<noteq> VUndef \<and> js_strict_eq (prevChildValueOf p rn) v)"
    by (auto simp: processSortingRules_def Let_def js_gt_def split: if_splits)
qed


lemma sibling_effect_iff:
  "sibling_effect rule rn v p p1 =
     ((ascending rule \<or> descending rule \<or> noRepeat rule \<longrightarrow> prevChildValueOf p1 rn = v)
      \<and> (if truthy (frame_fixedChildLength p)
          then (\<exists>l. js_length v = Inr l
                 \<and> (if js_strict_eq (frame_fixedChildLength p) (VNum (- 1))
                     then frame_fixedChildLength p1 = l
                     else js_strict_eq (frame_fixedChildLength p) l
                          \<and> frame_fixedChildLength p1 = frame_fixedChildLength p))
          else frame_fixedChildLength p1 = frame_fixedChildLength p)
      \<and> \<not> (ascending rule \<and> prevChildValueOf p rn \<noteq> VUndef \<and> js_lt v (prevChildValueOf p rn))
      \<and> \<not> (descending rule \<and> prevChildValueOf p rn \<noteq> VUndef \<and> js_gt v (prevChildValueOf p rn))
      \<and> \<not> (noRepeat rule \<and> prevChildValueOf p rn \<noteq> VUndef
             \<and> js_strict_eq (prevChildValueOf p rn) v))"
  by (cases "js_length v") (simp_all add: sibling_effect_def)

lemma processSiblingRules_Inr:
  assumes p: "peek st 1 = Some p" and ok: "processSiblingRules key rule rn v st = Inr st1"
  shows "\<exists>p1. peek st1 1 = Some p1 \<and> sibling_effect rule rn v p p1"
proof (cases "truthy (frame_fixedChildLength p)")
  case False
  with p ok have s: "processSortingRules key rule rn v st = Inr st1"
    by (simp add: processSiblingRules_def)
  from processSortingRules_Inr [OF p s] False show ?thesis
    by (auto simp: sibling_effect_iff)
next
  case True
  from p ok True obtain l where l: "js_length v = Inr l"
    by (cases "js_length v") (auto simp: processSiblingRules_def split: if_splits)
  show ?thesis
  proof (cases "js_strict_eq (frame_fixedChildLength p) (VNum (- 1))")
    case pending: True
    let ?q = "p\<lparr>frame_fixedChildLength := l\<rparr>"
    from p have q: "peek (poke st 1 ?q) 1 = Some ?q"
      by (simp add: peek_poke peek_Some_length)
    from p ok True pending l have s: "processSortingRules key rule rn v (poke st 1 ?q) = Inr st1"
      by (simp add: processSiblingRules_def)
    have "prevChildValueOf ?q rn = prevChildValueOf p rn" by (simp add: prevChildValueOf_def)
    with processSortingRules_Inr [OF q s] True pending l show ?thesis
      by (auto simp: sibling_effect_iff)
  next
    case sealed: False
    from p ok True sealed l have eq: "js_strict_eq (frame_fixedChildLength p) l"
      and s: "processSortingRules key rule rn v st = Inr st1"
      by (auto simp: processSiblingRules_def split: if_splits)
    from processSortingRules_Inr [OF p s] True sealed l eq show ?thesis
      by (auto simp: sibling_effect_iff)
  qed
qed


lemma processRule_sibling_effect:
  assumes pr: "processRule F opts key rule rn v st = (Inr (ret, st'), v')"
      and nv: "v \<noteq> VUndef" and p: "peek st 1 = Some p"
  shows "\<exists>p1. peek st' 1 = Some p1 \<and> sibling_effect rule rn v p p1"
proof -
  from processRule_result [OF pr] nv obtain cv st2 where
    cc: "checkConstraints F opts key rule rn v st = Inr (cv, st2)"
    and d: "st' = st2 \<or> (\<exists>rules. processChildRules F opts key rules v st2 = (Inr st', v'))"
    by auto
  from checkConstraints_Inr [OF cc] obtain st1 where
    e: "(if fixedChildLength rule then enableFixedChildLength st else Inr st) = Inr st1"
    and s: "processSiblingRules key rule rn v st1 = Inr st2"
    by blast
  from e have "frames_kept 1 st st1"
    by (auto split: if_splits dest: enableFixedChildLength_frames)
  then have "peek st1 1 = peek st 1" by (rule frames_kept_peek) simp
  with p have p1: "peek st1 1 = Some p" by simp
  from processSiblingRules_Inr [OF p1 s] obtain p2 where
    p2: "peek st2 1 = Some p2" "sibling_effect rule rn v p p2" by blast
  from d have "peek st' 1 = peek st2 1"
  proof
    assume "st' = st2"
    then show ?thesis by simp
  next
    assume "\<exists>rules. processChildRules F opts key rules v st2 = (Inr st', v')"
    then obtain rules where "processChildRules F opts key rules v st2 = (Inr st', v')" ..
    then have "frames_kept 1 st2 st'" by (rule frames(2))
    then show ?thesis by (rule frames_kept_peek) simp
  qed
  with p2 show ?thesis by simp
qed


section \<open>Conversion\<close>




section \<open>Fixed length of the children\<close>

lemma js_get_js_set_other:
  "js_get pv n \<noteq> VUndef \<Longrightarrow> n' \<noteq> n \<Longrightarrow> js_get (js_set pv n c) n' = js_get pv n'"
proof (cases pv)
  case (VArr xs)
  assume "js_get pv n \<noteq> VUndef" "n' \<noteq> n"
  with VArr show ?thesis by (cases n; cases n') (auto split: if_splits)
next
  case (VObj ps)
  have other: "k' \<noteq> k \<Longrightarrow> own_property (set_property ps k c) k' = own_property ps k'" for k k'
    by (induction ps) (auto simp: own_property_def)
  assume "js_get pv n \<noteq> VUndef" "n' \<noteq> n"
  with VObj other show ?thesis by (cases n; cases n') auto
qed simp_all

lemma js_get_putBack_other: "n' \<noteq> n \<Longrightarrow> js_get (putBack pv n c) n' = js_get pv n'"
  by (simp add: putBack_def js_get_js_set_other)

lemma putBack_undefined: "js_get pv n = VUndef \<Longrightarrow> putBack pv n c = pv"
  by (simp add: putBack_def)

text \<open>One call of the loop.\<close>

lemma forEachCall_step:
  assumes "forEachCall F opts key rules ((rn, name) # cs) pv st = (Inr st', pv')"
  obtains entry rule c st1 v1 where
    "map_of rules (prop_of rn) = Some entry"
    "processRule F opts (childKey key (isArray pv) (1 < length rules) name rn) rule rn
       (js_get pv name) st = (Inr (c, st1), v1)"
    "forEachCall F opts key rules cs
       (if c \<noteq> VUndef \<and> convert opts then js_set pv name c else putBack pv name v1) st1
     = (Inr st', pv')"
proof -
  let ?v = "js_get pv name"
  let ?key = "childKey key (isArray pv) (1 < length rules) name rn"
  from assms obtain entry where e: "map_of rules (prop_of rn) = Some entry"
    by (cases "map_of rules (prop_of rn)") auto
  from assms e obtain rule where s: "selectConditionalRule opts entry ?v pv ?key = Inr rule"
    by (cases "selectConditionalRule opts entry ?v pv ?key") auto
  obtain r v1 where pr: "processRule F opts ?key rule rn ?v st = (r, v1)"
    by (cases "processRule F opts ?key rule rn ?v st")
  from assms e s pr obtain res where r: "r = Inr res" by (cases r) auto
  obtain c st1 where res: "res = (c, st1)" by (cases res)
  from assms e s pr r res
  have "forEachCall F opts key rules cs
       (if c \<noteq> VUndef \<and> convert opts then js_set pv name c else putBack pv name v1) st1
     = (Inr st', pv')" by simp
  with e pr r res that show ?thesis by blast
qed

lemma step_other_positions:
  assumes pr: "processRule F opts key rule rn (js_get pv name) st = (Inr (c, st1), v1)"
      and other: "n' \<noteq> name"
  shows "js_get (if c \<noteq> VUndef \<and> convert opts then js_set pv name c else putBack pv name v1) n'
           = js_get pv n'"
proof (cases "js_get pv name = VUndef")
  case True
  with pr have "c = VUndef" by (auto dest: processRule_undefined)
  with True show ?thesis by (simp add: putBack_undefined)
next
  case False
  with other show ?thesis by (simp add: js_get_js_set_other js_get_putBack_other)
qed

lemma sealed_loop:
  assumes "forEachCall F opts key rules cs pv st = (Inr st', pv')"
      and "peek st 1 = Some p"
      and "truthy (frame_fixedChildLength p)"
      and "\<not> js_strict_eq (frame_fixedChildLength p) (VNum (- 1))"
      and "distinct (map snd cs)"
  shows "\<forall>name \<in> snd ` set cs. js_get pv name \<noteq> VUndef \<longrightarrow>
           (\<exists>l. js_length (js_get pv name) = Inr l \<and> js_strict_eq (frame_fixedChildLength p) l)"
  using assms
proof (induction cs arbitrary: pv st p)
  case Nil
  then show ?case by simp
next
  case (Cons call cs)
  obtain rn name where call: "call = (rn, name)" by (cases call)
  let ?key = "childKey key (isArray pv) (1 < length rules) name rn"
  from Cons.prems(1) call
  have "forEachCall F opts key rules ((rn, name) # cs) pv st = (Inr st', pv')" by simp
  then obtain entry rule c st1 v1 where
    entry: "map_of rules (prop_of rn) = Some entry"
    and pr: "processRule F opts ?key rule rn (js_get pv name) st = (Inr (c, st1), v1)"
    and rest: "forEachCall F opts key rules cs
       (if c \<noteq> VUndef \<and> convert opts then js_set pv name c else putBack pv name v1) st1
     = (Inr st', pv')"
    by (rule forEachCall_step)
  let ?pv1 = "if c \<noteq> VUndef \<and> convert opts then js_set pv name c else putBack pv name v1"
  from Cons.prems(5) call have dist: "distinct (map snd cs)" and fresh: "name \<notin> snd ` set cs"
    by auto
  have same: "js_get ?pv1 n' = js_get pv n'" if "n' \<in> snd ` set cs" for n'
  proof -
    from that fresh have "n' \<noteq> name" by auto
    with pr show ?thesis by (rule step_other_positions)
  qed
  have here: "js_get pv name \<noteq> VUndef \<longrightarrow>
           (\<exists>l. js_length (js_get pv name) = Inr l \<and> js_strict_eq (frame_fixedChildLength p) l)"
    and next_frame: "\<exists>p1. peek st1 1 = Some p1 \<and> frame_fixedChildLength p1 = frame_fixedChildLength p"
  proof -
    show "js_get pv name \<noteq> VUndef \<longrightarrow>
           (\<exists>l. js_length (js_get pv name) = Inr l \<and> js_strict_eq (frame_fixedChildLength p) l)"
    proof
      assume nv: "js_get pv name \<noteq> VUndef"
      from processRule_sibling_effect [OF pr nv Cons.prems(2)] Cons.prems(3,4)
      show "\<exists>l. js_length (js_get pv name) = Inr l \<and> js_strict_eq (frame_fixedChildLength p) l"
        by (auto simp: sibling_effect_iff)
    qed
    show "\<exists>p1. peek st1 1 = Some p1 \<and> frame_fixedChildLength p1 = frame_fixedChildLength p"
    proof (cases "js_get pv name = VUndef")
      case True
      with processRule_result [OF pr] have "st1 = st" by auto
      with Cons.prems(2) show ?thesis by simp
    next
      case False
      from processRule_sibling_effect [OF pr False Cons.prems(2)] Cons.prems(3,4)
      show ?thesis by (auto simp: sibling_effect_iff)
    qed
  qed
  from next_frame obtain p1 where p1: "peek st1 1 = Some p1"
    "frame_fixedChildLength p1 = frame_fixedChildLength p" by blast
  from Cons.IH [OF rest p1(1) _ _ dist] p1(2) Cons.prems(3,4)
  have "\<forall>n' \<in> snd ` set cs. js_get ?pv1 n' \<noteq> VUndef \<longrightarrow>
           (\<exists>l. js_length (js_get ?pv1 n') = Inr l \<and> js_strict_eq (frame_fixedChildLength p) l)"
    by simp
  with same have "\<forall>n' \<in> snd ` set cs. js_get pv n' \<noteq> VUndef \<longrightarrow>
           (\<exists>l. js_length (js_get pv n') = Inr l \<and> js_strict_eq (frame_fixedChildLength p) l)"
    by simp
  with here call show ?case by simp
qed

lemma children_values_cong:
  "(\<And>n. n \<in> snd ` set cs \<Longrightarrow> js_get pv1 n = js_get pv n)
     \<Longrightarrow> children_values pv1 cs = children_values pv cs"
proof -
  assume a: "\<And>n. n \<in> snd ` set cs \<Longrightarrow> js_get pv1 n = js_get pv n"
  have "js_get pv1 (snd c) = js_get pv (snd c)" if "c \<in> set cs" for c
    using that by (intro a imageI)
  then have "map (\<lambda>c. js_get pv1 (snd c)) cs = map (\<lambda>c. js_get pv (snd c)) cs"
    by (intro map_cong refl)
  then show ?thesis unfolding children_values_def by (rule arg_cong)
qed

lemma pending_loop:
  assumes "forEachCall F opts key rules cs pv st = (Inr st', pv')"
      and "peek st 1 = Some p"
      and "frame_fixedChildLength p = VNum (- 1)"
      and "distinct (map snd cs)"
      and "children_values pv cs = first # others"
  shows "\<exists>l0. js_length first = Inr l0
           \<and> (truthy l0 \<and> \<not> js_strict_eq l0 (VNum (- 1)) \<longrightarrow>
                (\<forall>x \<in> set others. \<exists>l. js_length x = Inr l \<and> js_strict_eq l0 l))"
  using assms
proof (induction cs arbitrary: pv st p)
  case Nil
  then show ?case by (simp add: children_values_def)
next
  case (Cons call cs)
  obtain rn name where call: "call = (rn, name)" by (cases call)
  let ?key = "childKey key (isArray pv) (1 < length rules) name rn"
  from Cons.prems(1) call
  have "forEachCall F opts key rules ((rn, name) # cs) pv st = (Inr st', pv')" by simp
  then obtain entry rule c st1 v1 where
    entry: "map_of rules (prop_of rn) = Some entry"
    and pr: "processRule F opts ?key rule rn (js_get pv name) st = (Inr (c, st1), v1)"
    and rest: "forEachCall F opts key rules cs
       (if c \<noteq> VUndef \<and> convert opts then js_set pv name c else putBack pv name v1) st1
     = (Inr st', pv')"
    by (rule forEachCall_step)
  let ?pv1 = "if c \<noteq> VUndef \<and> convert opts then js_set pv name c else putBack pv name v1"
  from Cons.prems(4) call have dist: "distinct (map snd cs)" and fresh: "name \<notin> snd ` set cs"
    by auto
  have same: "js_get ?pv1 n' = js_get pv n'" if "n' \<in> snd ` set cs" for n'
  proof -
    from that fresh have "n' \<noteq> name" by auto
    with pr show ?thesis by (rule step_other_positions)
  qed
  then have vals: "children_values ?pv1 cs = children_values pv cs"
    by (rule children_values_cong)
  show ?case
  proof (cases "js_get pv name = VUndef")
    case True
    with processRule_result [OF pr] have "st1 = st" by auto
    with Cons.prems(2) have p1: "peek st1 1 = Some p" by simp
    from Cons.prems(5) call True vals have "children_values ?pv1 cs = first # others"
      by (simp add: children_values_def)
    from Cons.IH [OF rest p1 Cons.prems(3) dist this] show ?thesis .
  next
    case False
    with Cons.prems(5) call have first: "first = js_get pv name"
      and others: "others = children_values pv cs"
      by (simp_all add: children_values_def)
    from processRule_sibling_effect [OF pr False Cons.prems(2)] Cons.prems(3)
    obtain p1 l0 where p1: "peek st1 1 = Some p1" and l0: "js_length (js_get pv name) = Inr l0"
      and sealed: "frame_fixedChildLength p1 = l0"
      by (auto simp: sibling_effect_iff)
    have "\<forall>x \<in> set others. \<exists>l. js_length x = Inr l \<and> js_strict_eq l0 l"
      if t: "truthy l0" and np: "\<not> js_strict_eq l0 (VNum (- 1))"
    proof
      fix x assume "x \<in> set others"
      with others obtain n where n: "n \<in> snd ` set cs" "x = js_get pv n" "x \<noteq> VUndef"
        by (auto simp: children_values_def)
      from sealed_loop [OF rest p1 _ _ dist] sealed t np
      have "\<forall>n \<in> snd ` set cs. js_get ?pv1 n \<noteq> VUndef \<longrightarrow>
              (\<exists>l. js_length (js_get ?pv1 n) = Inr l \<and> js_strict_eq l0 l)"
        by simp
      with n same [OF n(1)] show "\<exists>l. js_length x = Inr l \<and> js_strict_eq l0 l"
        by auto
    qed
    with first l0 show ?thesis by auto
  qed
qed

lemma iterate_array_positions:
  assumes "iterate (VArr xs) rules = Inr cs"
  shows "\<exists>cnt \<ge> length xs. map snd cs = map Index [0 ..< cnt]"
proof (cases "map_of rules wildcardRuleName")
  case None
  with assms have "cs = iterateArrayWithRules xs rules" by (simp add: iterate_def)
  then have "map snd cs = map Index [0 ..< max (length xs) (length rules)]"
    by (simp add: iterateArrayWithRules_def Let_def comp_def)
  then show ?thesis by (intro exI [of _ "max (length xs) (length rules)"]) simp
next
  case (Some w)
  define cnt where
    "cnt = max (int (length xs)) (int (length rules) - (if entry_required w then 0 else 1))"
  from Some assms have "iterateArrayWithRulesWildcard xs rules = Inr cs" by (simp add: iterate_def)
  with Some have "length cs = nat cnt \<and> (\<forall>i < nat cnt. snd (cs ! i) = Index i)"
    by (auto simp: iterateArrayWithRulesWildcard_def Let_def cnt_def)
  then have "map snd cs = map Index [0 ..< nat cnt]"
    by (simp add: list_eq_iff_nth_eq)
  moreover have "length xs \<le> nat cnt" by (simp add: cnt_def)
  ultimately show ?thesis by blast
qed

lemma children_values_array:
  assumes "length xs \<le> cnt" and "map snd cs = map Index [0 ..< cnt]"
  shows "children_values (VArr xs) cs = filter (\<lambda>x. x \<noteq> VUndef) xs"
proof -
  have "map (\<lambda>c. js_get (VArr xs) (snd c)) cs = map (js_get (VArr xs)) (map snd cs)"
    by simp
  also have "\<dots> = map (\<lambda>i. if i < length xs then xs ! i else VUndef) [0 ..< cnt]"
    by (simp add: assms(2) comp_def)
  also from assms(1) have "[0 ..< cnt] = [0 ..< length xs] @ [length xs ..< cnt]"
    by (metis le_add_diff_inverse upt_add_eq_append zero_le)
  also have "map (\<lambda>i. if i < length xs then xs ! i else VUndef) ([0 ..< length xs] @ [length xs ..< cnt])
               = xs @ replicate (cnt - length xs) VUndef"
  proof -
    have "map (\<lambda>i. if i < length xs then xs ! i else VUndef) [0 ..< length xs] = xs"
      by (rule nth_equalityI) simp_all
    moreover have "map (\<lambda>i. if i < length xs then xs ! i else VUndef) [length xs ..< cnt]
                     = map (\<lambda>i. VUndef) [length xs ..< cnt]"
      by (rule map_cong [OF refl]) simp
    then have "map (\<lambda>i. if i < length xs then xs ! i else VUndef) [length xs ..< cnt]
                     = replicate (cnt - length xs) VUndef"
      by (simp add: map_replicate_const)
    ultimately show ?thesis by simp
  qed
  finally show ?thesis by (simp add: children_values_def)
qed

lemma peek_poke_below:
  "Suc 0 < length st \<Longrightarrow> peek (poke st (Suc 0) f) 0 = peek st 0"
  "1 < length st \<Longrightarrow> peek (poke st 1 f) 0 = peek st 0"
  by (simp_all add: peek_def poke_def)

lemma setPrevChildValue_top: "peek (setPrevChildValue st rn v) 0 = peek st 0"
proof (cases "peek st 1")
  case None
  then show ?thesis by (simp add: setPrevChildValue_def)
next
  case (Some p)
  then have "1 < length st" by (rule peek_Some_length)
  with Some show ?thesis by (simp add: setPrevChildValue_def peek_poke_below)
qed

lemma processSortingRules_top:
  assumes "processSortingRules key rule rn v st = Inr st1"
  shows "peek st1 0 = peek st 0"
proof -
  from assms have "st1 = st \<or> st1 = setPrevChildValue st rn v"
    by (auto simp: processSortingRules_def Let_def setPrevChildValue_idem
             split: option.splits if_splits)
  then show ?thesis by (auto simp: setPrevChildValue_top)
qed

lemma processSiblingRules_top:
  assumes a: "processSiblingRules key rule rn v st = Inr st1"
  shows "peek st1 0 = peek st 0"
proof (cases "peek st 1")
  case None
  with a show ?thesis by (simp add: processSiblingRules_def)
next
  case (Some p)
  then have len: "1 < length st" by (rule peek_Some_length)
  show ?thesis
  proof (cases "truthy (frame_fixedChildLength p) \<and> js_strict_eq (frame_fixedChildLength p) (VNum (- 1))")
    case True
    with a Some obtain l where
      "processSortingRules key rule rn v (poke st 1 (p\<lparr>frame_fixedChildLength := l\<rparr>)) = Inr st1"
      by (cases "js_length v") (simp_all add: processSiblingRules_def)
    then have "peek st1 0 = peek (poke st 1 (p\<lparr>frame_fixedChildLength := l\<rparr>)) 0"
      by (rule processSortingRules_top)
    with len show ?thesis by (simp add: peek_poke_below)
  next
    case False
    with a Some have "processSortingRules key rule rn v st = Inr st1"
      by (cases "js_length v") (auto simp: processSiblingRules_def split: if_splits)
    then show ?thesis by (rule processSortingRules_top)
  qed
qed

lemma peek_push: "peek (push st) (Suc 0) = peek st 0" "peek (push st) 1 = peek st 0"
  by (cases "st = []"; auto simp: peek_def push_def nth_append)+

lemma enableFixedChildLength_Inr:
  assumes "enableFixedChildLength st = Inr st1"
  shows "\<exists>f. peek st1 0 = Some f \<and> frame_fixedChildLength f = VNum (- 1)"
proof -
  from assms obtain f where f: "peek st 0 = Some f"
    and st1: "st1 = poke st 0 (f\<lparr>frame_fixedChildLength := VNum (- 1)\<rparr>)"
    by (auto simp: enableFixedChildLength_def split: option.splits)
  from f have "0 < length st" by (rule peek_Some_length)
  with st1 show ?thesis by (simp add: peek_poke)
qed

lemma children_values_undefined: "children_values VUndef cs = []"
  by (induction cs) (simp_all add: children_values_def)

text \<open>
  Claim C2 (fixed length across siblings), as stated: siblings whose own rule has the
  flag must have the length of the first of them. Against it: with the flag on the rule
  of the siblings, \<^verbatim>\<open>{a: {childRules: {'*': {fixedChildLength: true}}}}\<close>, the
  siblings \<^verbatim>\<open>[1,2]\<close> and \<^verbatim>\<open>[3,4,5]\<close> pass; and with the flag on the rule of the
  container too, the siblings \<^verbatim>\<open>[]\<close> and \<^verbatim>\<open>[1]\<close> pass, the baseline 0 being falsy.
\<close>

theorem C2_counterexample:
  "validate basic_formats [(''a'', VArr [VArr [VNum 1, VNum 2], VArr [VNum 3, VNum 4, VNum 5]])]
       [(''a'', Node (children [(''*'', Node (fixed_length_rule None))]))] no_options
     = (None, VObj [(''a'', VArr [VArr [VNum 1, VNum 2], VArr [VNum 3, VNum 4, VNum 5]])])
   \<and> validate basic_formats [(''a'', VArr [VArr [], VArr [VNum 1]])]
       [(''a'', Node (fixed_length_rule (Some [(''*'', Node (fixed_length_rule None))])))] no_options
     = (None, VObj [(''a'', VArr [VArr [], VArr [VNum 1]])])"
  by code_simp

text \<open>
  Claim C2, amended. The flag is read on the rule of the container: when the rule
  applied to a value has \<^verbatim>\<open>fixedChildLength\<close> and \<^verbatim>\<open>childRules\<close>, and the value
  passes, then the first defined child of the value has a length, and if that length is
  truthy (not 0) and not -1, every later defined child has a length identical to it,
  whatever the rules of the children are. (The calls of the level are \<open>cs\<close>; for an
  array their positions are distinct and the defined children are the defined elements,
  by \<open>iterate_array_positions\<close> and \<open>children_values_array\<close>.)
\<close>

theorem C2_children_of_fixed_length_container:
  assumes flag: "fixedChildLength rule" and cr: "childRules rule = Some rules"
      and pr: "processRule F opts key rule rn v st = (Inr (ret, st'), v')"
      and it: "iterate v rules = Inr cs" and dist: "distinct (map snd cs)"
      and vs: "children_values v cs = first # others"
  shows "\<exists>l0. js_length first = Inr l0
           \<and> (truthy l0 \<and> \<not> js_strict_eq l0 (VNum (- 1)) \<longrightarrow>
                (\<forall>x \<in> set others. \<exists>l. js_length x = Inr l \<and> js_strict_eq l0 l))"
proof -
  from vs have nv: "v \<noteq> VUndef" by (auto simp: children_values_undefined)
  from processRule_result [OF pr] nv cr obtain cv st2 where
    cc: "checkConstraints F opts key rule rn v st = Inr (cv, st2)"
    and pc: "processChildRules F opts key rules v st2 = (Inr st', v')"
    by auto
  from checkConstraints_Inr [OF cc] flag obtain st1 where
    e: "enableFixedChildLength st = Inr st1"
    and s: "processSiblingRules key rule rn v st1 = Inr st2"
    by auto
  from enableFixedChildLength_Inr [OF e] obtain f where
    "peek st1 0 = Some f" and pending: "frame_fixedChildLength f = VNum (- 1)" by blast
  with processSiblingRules_top [OF s] have "peek st2 0 = Some f" by simp
  then have parent: "peek (push st2) 1 = Some f" by (simp add: peek_push)
  obtain r1 pv1 where fe: "forEachCall F opts key rules cs v (push st2) = (r1, pv1)"
    by (cases "forEachCall F opts key rules cs v (push st2)")
  from pc it fe obtain st3 where "r1 = Inr st3"
    by (cases r1) (simp_all add: processChildRules.simps Let_def)
  with fe have "forEachCall F opts key rules cs v (push st2) = (Inr st3, pv1)" by simp
  from pending_loop [OF this parent pending dist vs] show ?thesis .
qed

theorem C2_children_of_fixed_length_container_witness:
  "(\<exists>l0. js_length (VArr [VNum 1, VNum 2]) = Inr l0
       \<and> (truthy l0 \<and> \<not> js_strict_eq l0 (VNum (- 1)) \<longrightarrow>
            (\<forall>x \<in> set [VArr [VNum 3, VNum 4]]. \<exists>l. js_length x = Inr l \<and> js_strict_eq l0 l)))
   \<and> validate basic_formats [(''a'', VArr [VArr [VNum 1, VNum 2], VArr [VNum 3, VNum 4, VNum 5]])]
       [(''a'', Node (fixed_length_rule (Some [(''*'', Node emptyRule)])))] no_options
     = (Some (TrackValidationError ''a[1]'' DifferentLength),
        VObj [(''a'', VArr [VArr [VNum 1, VNum 2], VArr [VNum 3, VNum 4, VNum 5]])])"
proof -
  have flag: "fixedChildLength (fixed_length_rule (Some [(''*'', Node emptyRule)]))"
    by (simp add: fixed_length_rule_def)
  have cr: "childRules (fixed_length_rule (Some [(''*'', Node emptyRule)]))
              = Some [(''*'', Node emptyRule)]"
    by (simp add: fixed_length_rule_def)
  have pr: "processRule basic_formats defaultOptions ''a''
              (fixed_length_rule (Some [(''*'', Node emptyRule)])) (Some ''a'')
              (VArr [VArr [VNum 1, VNum 2], VArr [VNum 3, VNum 4]]) [emptyFrame]
            = (Inr (VArr [VArr [VNum 1, VNum 2], VArr [VNum 3, VNum 4]],
                    [\<lparr>frame_fixedChildLength = VNum 2, prevChildValues = None\<rparr>]),
               VArr [VArr [VNum 1, VNum 2], VArr [VNum 3, VNum 4]])"
    by code_simp
  have it: "iterate (VArr [VArr [VNum 1, VNum 2], VArr [VNum 3, VNum 4]]) [(''*'', Node emptyRule)]
              = Inr [(Some ''*'', Index 0), (Some ''*'', Index 1)]"
    by code_simp
  have dist: "distinct (map snd [(Some ''*'', Index 0), (Some ''*'', Index (1::nat))])"
    by simp
  have vs: "children_values (VArr [VArr [VNum 1, VNum 2], VArr [VNum 3, VNum 4]])
              [(Some ''*'', Index 0), (Some ''*'', Index 1)]
            = VArr [VNum 1, VNum 2] # [VArr [VNum 3, VNum 4]]"
    by (simp add: children_values_def)
  have ex: "validate basic_formats [(''a'', VArr [VArr [VNum 1, VNum 2], VArr [VNum 3, VNum 4, VNum 5]])]
       [(''a'', Node (fixed_length_rule (Some [(''*'', Node emptyRule)])))] no_options
     = (Some (TrackValidationError ''a[1]'' DifferentLength),
        VObj [(''a'', VArr [VArr [VNum 1, VNum 2], VArr [VNum 3, VNum 4, VNum 5]])])"
    by code_simp
  from C2_children_of_fixed_length_container [OF flag cr pr it dist vs] ex
  show ?thesis by blast
qed

end
